theory Spec2Isabelle
  imports Main
begin

section \<open>Data model\<close>

text \<open>
  The backend keeps three MongoDB collections (\<^verbatim>\<open>auth_tokens\<close>, \<^verbatim>\<open>users\<close>,
  \<^verbatim>\<open>feedbacks\<close>) behind three repositories, and five HTTP handlers work on them.
  A collection is a list of documents in insertion order: \<^verbatim>\<open>FindOne\<close> and
  \<^verbatim>\<open>UpdateOne\<close> act on the first document that matches the filter,
  \<^verbatim>\<open>InsertOne\<close> appends. The indexes of \<^verbatim>\<open>EnsureIndexes\<close> are taken to be in
  place: the unique ones (token value, user email, idempotency key) reject an insert that
  would repeat an indexed value with a duplicate-key error, and the TTL index on
  \<^verbatim>\<open>expires_at\<close> lets the store delete expired token records in passes of its own.

  A \<^verbatim>\<open>time.Time\<close> is the number of nanoseconds since the Unix epoch and a
  \<^verbatim>\<open>time.Duration\<close> a number of nanoseconds, both unbounded integers here. Every
  call of \<^verbatim>\<open>time.Now()\<close> is a reading of its own, supplied by the environment of the
  request. The store keeps a time as a BSON date, which counts whole milliseconds: a time
  written to the store or sent in a query is cut down to the millisecond
  (\<open>bson_time\<close>), while the Go value the handler holds keeps its nanoseconds. An
  \<^verbatim>\<open>ObjectID\<close> is a 12-byte value, written as the number it encodes; the id of a new
  document comes from outside.
\<close>

type_synonym Time = int
type_synonym Duration = int
type_synonym ObjectID = nat

definition Second :: Duration where
  "Second = 1000000000"

definition Minute :: Duration where
  "Minute = 60 * Second"

definition Hour :: Duration where
  "Hour = 60 * Minute"

definition Unix :: "Time \<Rightarrow> int" where
  "Unix t = t div Second"

definition Millisecond :: Duration where
  "Millisecond = 1000000"

definition bson_time :: "Time \<Rightarrow> Time" where
  "bson_time t = (t div Millisecond) * Millisecond"

text \<open>\<^verbatim>\<open>models.AuthToken\<close>, \<^verbatim>\<open>models.User\<close> and \<^verbatim>\<open>models.Feedback\<close>.\<close>

record AuthToken =
  tok_ID :: ObjectID
  tok_Email :: string
  tok_Token :: string
  tok_ExpiresAt :: Time
  tok_IsUsed :: bool
  tok_CreatedAt :: Time

record User =
  usr_ID :: ObjectID
  usr_Email :: string
  usr_OnboardingCompleted :: bool
  usr_CreatedAt :: Time
  usr_UpdatedAt :: Time

record Feedback =
  fb_ID :: ObjectID
  fb_UserID :: ObjectID
  fb_Text :: string
  fb_Rating :: int
  fb_IdempotencyKey :: string
  fb_CreatedAt :: Time

text \<open>The document the store keeps of a Go value: the same fields, the times as BSON
  dates.\<close>

definition stored_AuthToken :: "AuthToken \<Rightarrow> AuthToken" where
  "stored_AuthToken t =
     t\<lparr>tok_ExpiresAt := bson_time (tok_ExpiresAt t), tok_CreatedAt := bson_time (tok_CreatedAt t)\<rparr>"

definition stored_User :: "User \<Rightarrow> User" where
  "stored_User u =
     u\<lparr>usr_CreatedAt := bson_time (usr_CreatedAt u), usr_UpdatedAt := bson_time (usr_UpdatedAt u)\<rparr>"

definition stored_Feedback :: "Feedback \<Rightarrow> Feedback" where
  "stored_Feedback f = f\<lparr>fb_CreatedAt := bson_time (fb_CreatedAt f)\<rparr>"

text \<open>\<^verbatim>\<open>func (t *AuthToken) IsExpired() bool { return time.Now().After(t.ExpiresAt) }\<close>:
  \<^verbatim>\<open>After\<close> is strict.\<close>

definition IsExpired :: "Time \<Rightarrow> AuthToken \<Rightarrow> bool" where
  "IsExpired now t = (tok_ExpiresAt t < now)"

text \<open>
  The world a request runs in: the three collections, and what the process has sent
  out. \<open>logs\<close> holds the format string of every error line a handler or
  repository caller writes with \<^verbatim>\<open>log.Printf\<close> (informational lines are left out),
  \<open>outbox\<close> the login mails accepted by the mail service (recipient, link), and
  \<open>slack\<close> the messages for which a publishing goroutine was started.
\<close>

record World =
  auth_tokens :: "AuthToken list"
  users :: "User list"
  feedbacks :: "Feedback list"
  logs :: "string list"
  outbox :: "(string \<times> string) list"
  slack :: "string list"

datatype error =
  ErrStore
  | ErrDuplicateKey
  | ErrSend
  | ErrInvalidHex

text \<open>A JSON response: the status and the payload handed to \<^verbatim>\<open>writeJSON\<close>.\<close>

record Claims =
  claim_user_id :: string
  claim_email :: string
  claim_exp :: int
  claim_iat :: int

text \<open>The signed credential: the HS256 compact serialisation is library code, so the
  token string is represented by the claims it carries and the key it is signed with.\<close>

datatype Credential = HS256 Claims string

datatype payload =
  ErrorBody string
  | MessageBody string
  | MessageNoteBody string string
  | VerifyBody Credential User
  | FeedbackBody string Feedback
  | OnboardingBody bool

type_synonym response = "nat \<times> payload"

definition logline :: "string \<Rightarrow> World \<Rightarrow> World" where
  "logline s w = w\<lparr>logs := logs w @ [s]\<rparr>"

section \<open>ObjectID and its hexadecimal form\<close>

definition hexdigit :: "nat \<Rightarrow> char" where
  "hexdigit d = ''0123456789abcdef'' ! (d mod 16)"

fun hex_of :: "nat \<Rightarrow> nat \<Rightarrow> string" where
  "hex_of 0 n = []"
| "hex_of (Suc k) n = hex_of k (n div 16) @ [hexdigit n]"

text \<open>\<^verbatim>\<open>ObjectID.Hex()\<close>: 24 lower-case digits.\<close>

definition Hex :: "ObjectID \<Rightarrow> string" where
  "Hex n = hex_of 24 n"

definition index_of :: "char \<Rightarrow> string \<Rightarrow> nat option" where
  "index_of c s = (if c \<in> set s then Some (length (takeWhile (\<lambda>x. x \<noteq> c) s)) else None)"

definition hexval :: "char \<Rightarrow> nat option" where
  "hexval c =
     (case index_of c ''0123456789abcdef'' of
        Some d \<Rightarrow> Some d
      | None \<Rightarrow>
          (case index_of c ''ABCDEF'' of Some d \<Rightarrow> Some (d + 10) | None \<Rightarrow> None))"

fun hex_value :: "nat \<Rightarrow> string \<Rightarrow> nat option" where
  "hex_value acc [] = Some acc"
| "hex_value acc (c # cs) =
     (case hexval c of None \<Rightarrow> None | Some d \<Rightarrow> hex_value (acc * 16 + d) cs)"

text \<open>\<^verbatim>\<open>bson.ObjectIDFromHex\<close>: exactly 24 hexadecimal digits, or an error.\<close>

definition ObjectIDFromHex :: "string \<Rightarrow> error + ObjectID" where
  "ObjectIDFromHex s =
     (if length s \<noteq> 24 then Inl ErrInvalidHex
      else case hex_value 0 s of None \<Rightarrow> Inl ErrInvalidHex | Some n \<Rightarrow> Inr n)"

section \<open>Store primitives\<close>

text \<open>\<^verbatim>\<open>UpdateOne\<close>: the first document matching the filter is updated; with no
  match nothing changes and no error is reported.\<close>

fun update_first :: "('a \<Rightarrow> bool) \<Rightarrow> ('a \<Rightarrow> 'a) \<Rightarrow> 'a list \<Rightarrow> 'a list" where
  "update_first P f [] = []"
| "update_first P f (x # xs) = (if P x then f x # xs else x # update_first P f xs)"

section \<open>AuthTokenRepo\<close>

text \<open>Each repository call takes a flag \<open>fault\<close>: when it is set the store
  operation fails (the store is unavailable) and leaves the collection as it was.
  \<^verbatim>\<open>Create\<close> stamps the Go value, inserts its document and returns the Go value
  with the id the document got; the unique index on the token value rejects a value that
  is already there.\<close>

definition AuthTokenRepo_Create ::
  "bool \<Rightarrow> Time \<Rightarrow> ObjectID \<Rightarrow> AuthToken \<Rightarrow> World \<Rightarrow> World \<times> (error + AuthToken)" where
  "AuthTokenRepo_Create fault now new_id token w =
     (let token1 = token\<lparr>tok_CreatedAt := now\<rparr> in
      if fault then (w, Inl ErrStore)
      else if list_ex (\<lambda>t. tok_Token t = tok_Token token1) (auth_tokens w)
        then (w, Inl ErrDuplicateKey)
      else
        (let token2 = token1\<lparr>tok_ID := new_id\<rparr>
         in (w\<lparr>auth_tokens := auth_tokens w @ [stored_AuthToken token2]\<rparr>, Inr token2)))"

definition FindByToken :: "bool \<Rightarrow> string \<Rightarrow> World \<Rightarrow> error + AuthToken option" where
  "FindByToken fault token w =
     (if fault then Inl ErrStore
      else Inr (find (\<lambda>t. tok_Token t = token) (auth_tokens w)))"

text \<open>\<^verbatim>\<open>MarkUsed\<close>: the filter is the token value alone.\<close>

definition MarkUsed :: "bool \<Rightarrow> string \<Rightarrow> World \<Rightarrow> World \<times> error option" where
  "MarkUsed fault token w =
     (if fault then (w, Some ErrStore)
      else
        (w\<lparr>auth_tokens :=
             update_first (\<lambda>t. tok_Token t = token) (\<lambda>t. t\<lparr>tok_IsUsed := True\<rparr>)
               (auth_tokens w)\<rparr>,
         None))"

text \<open>\<^verbatim>\<open>CountRecentByEmail\<close>: \<^verbatim>\<open>since\<close> goes into the query as a BSON date, and
  \<^verbatim>\<open>$gte\<close> compares it with the stored \<^verbatim>\<open>created_at\<close>.\<close>

definition CountRecentByEmail ::
  "bool \<Rightarrow> Time \<Rightarrow> string \<Rightarrow> Duration \<Rightarrow> World \<Rightarrow> error + int" where
  "CountRecentByEmail fault now email duration w =
     (let since = now - duration in
      if fault then Inl ErrStore
      else
        Inr (int (length
          (filter (\<lambda>t. tok_Email t = email \<and> bson_time since \<le> tok_CreatedAt t)
             (auth_tokens w)))))"

text \<open>One pass of the store's TTL monitor at server time \<open>now\<close>: with
  \<^verbatim>\<open>SetExpireAfterSeconds(0)\<close> a token record whose \<^verbatim>\<open>expires_at\<close> has been
  reached is deleted if the pass gets to it. When passes happen and which of the expired
  records a pass gets to (\<open>reached\<close>) is up to the store.\<close>

definition ttl_pass :: "Time \<Rightarrow> (AuthToken \<Rightarrow> bool) \<Rightarrow> World \<Rightarrow> World" where
  "ttl_pass now reached w =
     w\<lparr>auth_tokens :=
         filter (\<lambda>t. bson_time now < tok_ExpiresAt t \<or> \<not> reached t) (auth_tokens w)\<rparr>"

section \<open>UserRepo\<close>

record user_env =
  ue_find_fault :: bool
  ue_create_fault :: bool
  ue_now_created :: Time
  ue_now_updated :: Time
  ue_new_id :: ObjectID

definition FindByEmail :: "bool \<Rightarrow> string \<Rightarrow> World \<Rightarrow> error + User option" where
  "FindByEmail fault email w =
     (if fault then Inl ErrStore
      else Inr (find (\<lambda>u. usr_Email u = email) (users w)))"

definition UserRepo_Create :: "user_env \<Rightarrow> User \<Rightarrow> World \<Rightarrow> World \<times> (error + User)" where
  "UserRepo_Create e user w =
     (let user1 = user\<lparr>usr_CreatedAt := ue_now_created e, usr_UpdatedAt := ue_now_updated e\<rparr> in
      if ue_create_fault e then (w, Inl ErrStore)
      else if list_ex (\<lambda>u. usr_Email u = usr_Email user1) (users w)
        then (w, Inl ErrDuplicateKey)
      else
        (let user2 = user1\<lparr>usr_ID := ue_new_id e\<rparr>
         in (w\<lparr>users := users w @ [stored_User user2]\<rparr>, Inr user2)))"

text \<open>The second half of \<^verbatim>\<open>FindOrCreate\<close> (after the lookup found nothing): build the
  new user and insert it; an insert error is returned as it is.\<close>

definition FindOrCreate_create :: "user_env \<Rightarrow> string \<Rightarrow> World \<Rightarrow> World \<times> (error + User)" where
  "FindOrCreate_create e email w =
     (let newUser = \<lparr>usr_ID = 0, usr_Email = email, usr_OnboardingCompleted = False,
                      usr_CreatedAt = 0, usr_UpdatedAt = 0\<rparr>
      in case UserRepo_Create e newUser w of
           (w', Inl err) \<Rightarrow> (w', Inl err)
         | (w', Inr created) \<Rightarrow> (w', Inr created))"

definition FindOrCreate :: "user_env \<Rightarrow> string \<Rightarrow> World \<Rightarrow> World \<times> (error + User)" where
  "FindOrCreate e email w =
     (case FindByEmail (ue_find_fault e) email w of
        Inl err \<Rightarrow> (w, Inl err)
      | Inr (Some user) \<Rightarrow> (w, Inr user)
      | Inr None \<Rightarrow> FindOrCreate_create e email w)"

section \<open>POST /auth/request\<close>

abbreviation StatusOK :: nat where "StatusOK \<equiv> 200"
abbreviation StatusCreated :: nat where "StatusCreated \<equiv> 201"
abbreviation StatusBadRequest :: nat where "StatusBadRequest \<equiv> 400"
abbreviation StatusUnauthorized :: nat where "StatusUnauthorized \<equiv> 401"
abbreviation StatusNotFound :: nat where "StatusNotFound \<equiv> 404"
abbreviation StatusTooManyRequests :: nat where "StatusTooManyRequests \<equiv> 429"
abbreviation StatusInternalServerError :: nat where "StatusInternalServerError \<equiv> 500"

text \<open>What one \<^verbatim>\<open>RequestLogin\<close> call gets from outside: the clock readings, the
  generated UUID and document id, the process environment and request headers used to
  build the link, and which external operations fail.\<close>

record login_env =
  le_count_fault :: bool
  le_now_count :: Time
  le_uuid :: string
  le_now_expiry :: Time
  le_create_fault :: bool
  le_now_created :: Time
  le_new_id :: ObjectID
  le_BASE_URL :: string
  le_tls :: bool
  le_forwarded_proto :: string
  le_host :: string
  le_RESEND_API_KEY :: string
  le_send_fault :: bool

text \<open>\<^verbatim>\<open>sendLoginEmail\<close>: without an API key the mail is skipped and nothing is
  reported; otherwise the mail service is called and its error is returned wrapped.\<close>

definition sendLoginEmail ::
  "string \<Rightarrow> bool \<Rightarrow> string \<Rightarrow> string \<Rightarrow> World \<Rightarrow> World \<times> error option" where
  "sendLoginEmail apiKey send_fault to link w =
     (if apiKey = [] then (w, None)
      else if send_fault then (w, Some ErrSend)
      else (w\<lparr>outbox := outbox w @ [(to, link)]\<rparr>, None))"

text \<open>The token record built for a login request: 15 minutes of validity, unused.\<close>

definition login_token :: "login_env \<Rightarrow> string \<Rightarrow> AuthToken" where
  "login_token e email =
     \<lparr>tok_ID = 0, tok_Email = email, tok_Token = le_uuid e,
      tok_ExpiresAt = le_now_expiry e + 15 * Minute,
      tok_IsUsed = False, tok_CreatedAt = 0\<rparr>"

text \<open>The link mailed to the user: \<^verbatim>\<open>BASE_URL\<close> if set, else scheme and host of the
  request.\<close>

definition login_link :: "login_env \<Rightarrow> string" where
  "login_link e =
     (let baseURL =
            (if le_BASE_URL e = [] then
               (if le_tls e \<or> le_forwarded_proto e = ''https'' then ''https'' else ''http'')
                 @ ''://'' @ le_host e
             else le_BASE_URL e)
      in baseURL @ ''/auth/redirect?token='' @ le_uuid e)"

text \<open>The request body is \<open>None\<close> when it does not decode, else the \<^verbatim>\<open>email\<close> field.\<close>

definition RequestLogin :: "login_env \<Rightarrow> string option \<Rightarrow> World \<Rightarrow> World \<times> response" where
  "RequestLogin e body w =
     (case body of
        None \<Rightarrow> (w, (StatusBadRequest, ErrorBody ''invalid request body''))
      | Some email \<Rightarrow>
          if email = [] then (w, (StatusBadRequest, ErrorBody ''email is required''))
          else
            (case CountRecentByEmail (le_count_fault e) (le_now_count e) email (10 * Minute) w of
               Inl err \<Rightarrow>
                 (logline ''Error checking rate limit: %v'' w,
                  (StatusInternalServerError, ErrorBody ''internal server error''))
             | Inr count \<Rightarrow>
                 if 5 \<le> count then
                   (w, (StatusTooManyRequests,
                        ErrorBody ''too many login requests, please try again later''))
                 else
                   (case AuthTokenRepo_Create (le_create_fault e) (le_now_created e)
                           (le_new_id e) (login_token e email) w of
                      (w1, Inl err) \<Rightarrow>
                        (logline ''Error creating auth token: %v'' w1,
                         (StatusInternalServerError, ErrorBody ''failed to create login token''))
                    | (w1, Inr created) \<Rightarrow>
                        (case sendLoginEmail (le_RESEND_API_KEY e) (le_send_fault e)
                                email (login_link e) w1 of
                           (w2, Some err) \<Rightarrow>
                             (logline ''Error sending email: %v'' w2,
                              (StatusOK,
                               MessageNoteBody
                                 ''login link generated (email delivery may be delayed)''
                                 ''check server logs if email was not received''))
                         | (w2, None) \<Rightarrow>
                             (w2, (StatusOK, MessageBody ''login link sent to your email''))))))"

text \<open>The same handler in the three stretches between its outside calls (the count, the
  insert, the mail), for requests that run together with others.\<close>

definition login_count ::
  "login_env \<Rightarrow> string option \<Rightarrow> World \<Rightarrow> World \<times> (response + string)" where
  "login_count e body w =
     (case body of
        None \<Rightarrow> (w, Inl (StatusBadRequest, ErrorBody ''invalid request body''))
      | Some email \<Rightarrow>
          if email = [] then (w, Inl (StatusBadRequest, ErrorBody ''email is required''))
          else
            (case CountRecentByEmail (le_count_fault e) (le_now_count e) email (10 * Minute) w of
               Inl err \<Rightarrow>
                 (logline ''Error checking rate limit: %v'' w,
                  Inl (StatusInternalServerError, ErrorBody ''internal server error''))
             | Inr count \<Rightarrow>
                 if 5 \<le> count then
                   (w, Inl (StatusTooManyRequests,
                            ErrorBody ''too many login requests, please try again later''))
                 else (w, Inr email)))"

definition login_create :: "login_env \<Rightarrow> string \<Rightarrow> World \<Rightarrow> World \<times> response option" where
  "login_create e email w =
     (case AuthTokenRepo_Create (le_create_fault e) (le_now_created e) (le_new_id e)
             (login_token e email) w of
        (w1, Inl err) \<Rightarrow>
          (logline ''Error creating auth token: %v'' w1,
           Some (StatusInternalServerError, ErrorBody ''failed to create login token''))
      | (w1, Inr created) \<Rightarrow> (w1, None))"

definition login_send :: "login_env \<Rightarrow> string \<Rightarrow> World \<Rightarrow> World \<times> response" where
  "login_send e email w =
     (case sendLoginEmail (le_RESEND_API_KEY e) (le_send_fault e) email (login_link e) w of
        (w2, Some err) \<Rightarrow>
          (logline ''Error sending email: %v'' w2,
           (StatusOK,
            MessageNoteBody ''login link generated (email delivery may be delayed)''
              ''check server logs if email was not received''))
      | (w2, None) \<Rightarrow> (w2, (StatusOK, MessageBody ''login link sent to your email'')))"

section \<open>GET /auth/verify\<close>

record verify_env =
  ve_find_token_fault :: bool
  ve_now_check :: Time
  ve_mark_fault :: bool
  ve_user :: user_env
  ve_now_exp :: Time
  ve_now_iat :: Time
  ve_sign_fault :: bool

text \<open>The handler in the four stretches between its store operations. First the lookup
  and the two validations, which either answer the request or hand on the token read.\<close>

definition verify_lookup ::
  "verify_env \<Rightarrow> string \<Rightarrow> World \<Rightarrow> World \<times> (response + AuthToken)" where
  "verify_lookup e tokenValue w =
     (if tokenValue = [] then (w, Inl (StatusBadRequest, ErrorBody ''token is required''))
      else
        (case FindByToken (ve_find_token_fault e) tokenValue w of
           Inl err \<Rightarrow>
             (logline ''Error finding token: %v'' w,
              Inl (StatusInternalServerError, ErrorBody ''internal server error''))
         | Inr None \<Rightarrow> (w, Inl (StatusUnauthorized, ErrorBody ''invalid token''))
         | Inr (Some authToken) \<Rightarrow>
             if IsExpired (ve_now_check e) authToken
               then (w, Inl (StatusUnauthorized, ErrorBody ''token has expired''))
             else if tok_IsUsed authToken
               then (w, Inl (StatusUnauthorized, ErrorBody ''token has already been used''))
             else (w, Inr authToken)))"

definition verify_mark :: "verify_env \<Rightarrow> string \<Rightarrow> World \<Rightarrow> World \<times> response option" where
  "verify_mark e tokenValue w =
     (case MarkUsed (ve_mark_fault e) tokenValue w of
        (w1, Some err) \<Rightarrow>
          (logline ''Error marking token as used: %v'' w1,
           Some (StatusInternalServerError, ErrorBody ''internal server error''))
      | (w1, None) \<Rightarrow> (w1, None))"

definition verify_user_failed :: "World \<Rightarrow> World \<times> response" where
  "verify_user_failed w =
     (logline ''Error finding/creating user: %v'' w,
      (StatusInternalServerError, ErrorBody ''internal server error''))"

text \<open>The JWT with its four claims, signed with the handler's secret.\<close>

definition verify_issue :: "string \<Rightarrow> verify_env \<Rightarrow> User \<Rightarrow> World \<Rightarrow> World \<times> response" where
  "verify_issue jwtSecret e user w =
     (let claims = \<lparr>claim_user_id = Hex (usr_ID user),
                     claim_email = usr_Email user,
                     claim_exp = Unix (ve_now_exp e + 30 * 24 * Hour),
                     claim_iat = Unix (ve_now_iat e)\<rparr>
      in if ve_sign_fault e then
           (logline ''Error signing JWT: %v'' w,
            (StatusInternalServerError, ErrorBody ''internal server error''))
         else (w, (StatusOK, VerifyBody (HS256 claims jwtSecret) user)))"

definition VerifyToken :: "string \<Rightarrow> verify_env \<Rightarrow> string \<Rightarrow> World \<Rightarrow> World \<times> response" where
  "VerifyToken jwtSecret e tokenValue w =
     (case verify_lookup e tokenValue w of
        (w1, Inl r) \<Rightarrow> (w1, r)
      | (w1, Inr authToken) \<Rightarrow>
          (case verify_mark e tokenValue w1 of
             (w2, Some r) \<Rightarrow> (w2, r)
           | (w2, None) \<Rightarrow>
               (case FindOrCreate (ve_user e) (tok_Email authToken) w2 of
                  (w3, Inl err) \<Rightarrow> verify_user_failed w3
                | (w3, Inr user) \<Rightarrow> verify_issue jwtSecret e user w3)))"

section \<open>FeedbackRepo and POST /feedback\<close>

definition FeedbackRepo_Create ::
  "bool \<Rightarrow> Time \<Rightarrow> ObjectID \<Rightarrow> Feedback \<Rightarrow> World \<Rightarrow> World \<times> (error + Feedback)" where
  "FeedbackRepo_Create fault now new_id feedback w =
     (let feedback1 = feedback\<lparr>fb_CreatedAt := now\<rparr> in
      if fault then (w, Inl ErrStore)
      else if list_ex (\<lambda>f. fb_IdempotencyKey f = fb_IdempotencyKey feedback1) (feedbacks w)
        then (w, Inl ErrDuplicateKey)
      else
        (let feedback2 = feedback1\<lparr>fb_ID := new_id\<rparr>
         in (w\<lparr>feedbacks := feedbacks w @ [stored_Feedback feedback2]\<rparr>, Inr feedback2)))"

definition FindByIdempotencyKey :: "bool \<Rightarrow> string \<Rightarrow> World \<Rightarrow> error + Feedback option" where
  "FindByIdempotencyKey fault key w =
     (if fault then Inl ErrStore
      else Inr (find (\<lambda>f. fb_IdempotencyKey f = key) (feedbacks w)))"

text \<open>The two string literals of \<^verbatim>\<open>formatSlackMessage\<close> that are not ASCII, byte for
  byte as the source file has them.\<close>

definition star_mark :: string where
  "star_mark = [CHR 0xC3, CHR 0xA2, CHR 0xC2, CHR 0xAD]"

definition memo_mark :: string where
  "memo_mark = [CHR 0xC3, CHR 0xB0, CHR 0xC5, CHR 0xB8, CHR 0xE2, CHR 0x80, CHR 0x9C]"

definition formatSlackMessage :: "string \<Rightarrow> string \<Rightarrow> int \<Rightarrow> string" where
  "formatSlackMessage userID txt rating =
     (let stars = concat (replicate (nat rating) star_mark)
      in memo_mark @ '' *New Feedback Received*'' @ [CHR 0x0A] @
         ''User: '' @ [CHR 0x60] @ userID @ [CHR 0x60, CHR 0x0A] @
         ''Rating: '' @ stars @ [CHR 0x0A] @
         ''Feedback: '' @ txt)"

record SubmitFeedbackRequest =
  req_Text :: string
  req_Rating :: int
  req_IdempotencyKey :: string

record feedback_env =
  fe_find_fault :: bool
  fe_create_fault :: bool
  fe_now_created :: Time
  fe_new_id :: ObjectID

text \<open>\<open>userIDHex\<close> is what the authentication middleware left in the request
  context, empty when there is none. First stretch: the checks and the lookup by
  idempotency key.\<close>

definition submit_lookup ::
  "feedback_env \<Rightarrow> string \<Rightarrow> SubmitFeedbackRequest option \<Rightarrow> World
     \<Rightarrow> World \<times> (response + SubmitFeedbackRequest)" where
  "submit_lookup e userIDHex body w =
     (if userIDHex = [] then (w, Inl (StatusUnauthorized, ErrorBody ''unauthorized''))
      else
        (case body of
           None \<Rightarrow> (w, Inl (StatusBadRequest, ErrorBody ''invalid request body''))
         | Some req \<Rightarrow>
             if req_Text req = []
               then (w, Inl (StatusBadRequest, ErrorBody ''feedback text is required''))
             else if req_IdempotencyKey req = []
               then (w, Inl (StatusBadRequest, ErrorBody ''idempotency_key is required''))
             else
               (case FindByIdempotencyKey (fe_find_fault e) (req_IdempotencyKey req) w of
                  Inl err \<Rightarrow>
                    (logline ''Error checking idempotency: %v'' w,
                     Inl (StatusInternalServerError, ErrorBody ''internal server error''))
                | Inr (Some existing) \<Rightarrow>
                    (w, Inl (StatusOK, FeedbackBody ''feedback already submitted'' existing))
                | Inr None \<Rightarrow> (w, Inr req))))"

text \<open>Second stretch: parse the user id, insert, start the notification goroutine.\<close>

definition submit_create ::
  "feedback_env \<Rightarrow> string \<Rightarrow> SubmitFeedbackRequest \<Rightarrow> World \<Rightarrow> World \<times> response" where
  "submit_create e userIDHex req w =
     (case ObjectIDFromHex userIDHex of
        Inl err \<Rightarrow> (w, (StatusBadRequest, ErrorBody ''invalid user ID''))
      | Inr userID \<Rightarrow>
          (let feedback = \<lparr>fb_ID = 0, fb_UserID = userID, fb_Text = req_Text req,
                           fb_Rating = req_Rating req,
                           fb_IdempotencyKey = req_IdempotencyKey req, fb_CreatedAt = 0\<rparr>
           in case FeedbackRepo_Create (fe_create_fault e) (fe_now_created e) (fe_new_id e)
                     feedback w of
                (w1, Inl err) \<Rightarrow>
                  (logline ''Error creating feedback: %v'' w1,
                   (StatusInternalServerError, ErrorBody ''failed to submit feedback''))
              | (w1, Inr created) \<Rightarrow>
                  (w1\<lparr>slack := slack w1 @
                         [formatSlackMessage userIDHex (req_Text req) (req_Rating req)]\<rparr>,
                   (StatusCreated, FeedbackBody ''feedback submitted successfully'' created))))"

definition SubmitFeedback ::
  "feedback_env \<Rightarrow> string \<Rightarrow> SubmitFeedbackRequest option \<Rightarrow> World \<Rightarrow> World \<times> response" where
  "SubmitFeedback e userIDHex body w =
     (case submit_lookup e userIDHex body w of
        (w1, Inl r) \<Rightarrow> (w1, r)
      | (w1, Inr req) \<Rightarrow> submit_create e userIDHex req w1)"

section \<open>GET /user/status and PATCH /user/onboarding\<close>

definition FindByID :: "bool \<Rightarrow> ObjectID \<Rightarrow> World \<Rightarrow> error + User option" where
  "FindByID fault userID w =
     (if fault then Inl ErrStore
      else Inr (find (\<lambda>u. usr_ID u = userID) (users w)))"

definition UpdateOnboarding ::
  "bool \<Rightarrow> Time \<Rightarrow> ObjectID \<Rightarrow> bool \<Rightarrow> World \<Rightarrow> World \<times> error option" where
  "UpdateOnboarding fault now userID completed w =
     (if fault then (w, Some ErrStore)
      else
        (w\<lparr>users :=
             update_first (\<lambda>u. usr_ID u = userID)
               (\<lambda>u. u\<lparr>usr_OnboardingCompleted := completed,
                      usr_UpdatedAt := bson_time now\<rparr>)
               (users w)\<rparr>,
         None))"

definition GetStatus :: "bool \<Rightarrow> string \<Rightarrow> World \<Rightarrow> World \<times> response" where
  "GetStatus fault userIDHex w =
     (if userIDHex = [] then (w, (StatusUnauthorized, ErrorBody ''unauthorized''))
      else
        (case ObjectIDFromHex userIDHex of
           Inl err \<Rightarrow> (w, (StatusBadRequest, ErrorBody ''invalid user ID''))
         | Inr userID \<Rightarrow>
             (case FindByID fault userID w of
                Inl err \<Rightarrow>
                  (logline ''Error finding user: %v'' w,
                   (StatusInternalServerError, ErrorBody ''internal server error''))
              | Inr None \<Rightarrow> (w, (StatusNotFound, ErrorBody ''user not found''))
              | Inr (Some user) \<Rightarrow>
                  (w, (StatusOK, OnboardingBody (usr_OnboardingCompleted user))))))"

definition CompleteOnboarding :: "bool \<Rightarrow> Time \<Rightarrow> string \<Rightarrow> World \<Rightarrow> World \<times> response" where
  "CompleteOnboarding fault now userIDHex w =
     (if userIDHex = [] then (w, (StatusUnauthorized, ErrorBody ''unauthorized''))
      else
        (case ObjectIDFromHex userIDHex of
           Inl err \<Rightarrow> (w, (StatusBadRequest, ErrorBody ''invalid user ID''))
         | Inr userID \<Rightarrow>
             (case UpdateOnboarding fault now userID True w of
                (w1, Some err) \<Rightarrow>
                  (logline ''Error updating onboarding: %v'' w1,
                   (StatusInternalServerError,
                    ErrorBody ''failed to update onboarding status''))
              | (w1, None) \<Rightarrow>
                  (w1, (StatusOK, MessageBody ''onboarding marked as completed'')))))"

section \<open>The routes\<close>

text \<open>The routes of \<^verbatim>\<open>main\<close> that touch the store, each request with what it
  receives from outside. (\<^verbatim>\<open>/health\<close> and \<^verbatim>\<open>/auth/redirect\<close> only render a
  page.)\<close>

datatype request =
  PostAuthRequest login_env "string option"
  | GetAuthVerify verify_env string
  | PostFeedback feedback_env string "SubmitFeedbackRequest option"
  | GetUserStatus bool string
  | PatchUserOnboarding bool Time string

section \<open>Requests in flight together\<close>

text \<open>
  Requests run as goroutines against the shared store; each store operation is atomic on
  its document, and a handler is the sequence of its store operations. A request in
  flight is a thread state: where the handler stands and what it has read so far. One
  step runs the handler up to and including its next store operation.
\<close>

datatype fo_thread =
  FO_Start
  | FO_Missing
  | FO_Done "error + User"

fun step_FindOrCreate :: "user_env \<Rightarrow> string \<Rightarrow> fo_thread \<Rightarrow> World \<Rightarrow> World \<times> fo_thread" where
  "step_FindOrCreate e email FO_Start w =
     (case FindByEmail (ue_find_fault e) email w of
        Inl err \<Rightarrow> (w, FO_Done (Inl err))
      | Inr (Some user) \<Rightarrow> (w, FO_Done (Inr user))
      | Inr None \<Rightarrow> (w, FO_Missing))"
| "step_FindOrCreate e email FO_Missing w =
     (case FindOrCreate_create e email w of (w1, r) \<Rightarrow> (w1, FO_Done r))"
| "step_FindOrCreate e email (FO_Done r) w = (w, FO_Done r)"

datatype v_thread =
  V_Start
  | V_Checked AuthToken
  | V_Marked AuthToken
  | V_UserMissing AuthToken
  | V_Done response

fun step_VerifyToken ::
  "string \<Rightarrow> verify_env \<Rightarrow> string \<Rightarrow> v_thread \<Rightarrow> World \<Rightarrow> World \<times> v_thread" where
  "step_VerifyToken jwtSecret e tokenValue V_Start w =
     (case verify_lookup e tokenValue w of
        (w1, Inl r) \<Rightarrow> (w1, V_Done r)
      | (w1, Inr authToken) \<Rightarrow> (w1, V_Checked authToken))"
| "step_VerifyToken jwtSecret e tokenValue (V_Checked authToken) w =
     (case verify_mark e tokenValue w of
        (w1, Some r) \<Rightarrow> (w1, V_Done r)
      | (w1, None) \<Rightarrow> (w1, V_Marked authToken))"
| "step_VerifyToken jwtSecret e tokenValue (V_Marked authToken) w =
     (case FindByEmail (ue_find_fault (ve_user e)) (tok_Email authToken) w of
        Inl err \<Rightarrow> (case verify_user_failed w of (w1, r) \<Rightarrow> (w1, V_Done r))
      | Inr (Some user) \<Rightarrow>
          (case verify_issue jwtSecret e user w of (w1, r) \<Rightarrow> (w1, V_Done r))
      | Inr None \<Rightarrow> (w, V_UserMissing authToken))"
| "step_VerifyToken jwtSecret e tokenValue (V_UserMissing authToken) w =
     (case FindOrCreate_create (ve_user e) (tok_Email authToken) w of
        (w1, Inl err) \<Rightarrow> (case verify_user_failed w1 of (w2, r) \<Rightarrow> (w2, V_Done r))
      | (w1, Inr user) \<Rightarrow>
          (case verify_issue jwtSecret e user w1 of (w2, r) \<Rightarrow> (w2, V_Done r)))"
| "step_VerifyToken jwtSecret e tokenValue (V_Done r) w = (w, V_Done r)"

datatype f_thread =
  F_Start
  | F_Missed SubmitFeedbackRequest
  | F_Done response

fun step_SubmitFeedback ::
  "feedback_env \<Rightarrow> string \<Rightarrow> SubmitFeedbackRequest option \<Rightarrow> f_thread \<Rightarrow> World
     \<Rightarrow> World \<times> f_thread" where
  "step_SubmitFeedback e userIDHex body F_Start w =
     (case submit_lookup e userIDHex body w of
        (w1, Inl r) \<Rightarrow> (w1, F_Done r)
      | (w1, Inr req) \<Rightarrow> (w1, F_Missed req))"
| "step_SubmitFeedback e userIDHex body (F_Missed req) w =
     (case submit_create e userIDHex req w of (w1, r) \<Rightarrow> (w1, F_Done r))"
| "step_SubmitFeedback e userIDHex body (F_Done r) w = (w, F_Done r)"

text \<open>Two requests A and B under a schedule: \<open>False\<close> lets A take its next step,
  \<open>True\<close> lets B.\<close>

fun interleave ::
  "('a \<Rightarrow> World \<Rightarrow> World \<times> 'a) \<Rightarrow> ('b \<Rightarrow> World \<Rightarrow> World \<times> 'b) \<Rightarrow> bool list
     \<Rightarrow> World \<times> 'a \<times> 'b \<Rightarrow> World \<times> 'a \<times> 'b" where
  "interleave stepA stepB [] c = c"
| "interleave stepA stepB (False # sched) (w, a, b) =
     (case stepA a w of (w1, a1) \<Rightarrow> interleave stepA stepB sched (w1, a1, b))"
| "interleave stepA stepB (True # sched) (w, a, b) =
     (case stepB b w of (w1, b1) \<Rightarrow> interleave stepA stepB sched (w1, a, b1))"

section \<open>Any number of requests and the store's own passes\<close>

datatype l_thread =
  L_Start
  | L_Counted string
  | L_Created string
  | L_Done response

fun step_RequestLogin ::
  "login_env \<Rightarrow> string option \<Rightarrow> l_thread \<Rightarrow> World \<Rightarrow> World \<times> l_thread" where
  "step_RequestLogin e body L_Start w =
     (case login_count e body w of
        (w1, Inl r) \<Rightarrow> (w1, L_Done r)
      | (w1, Inr email) \<Rightarrow> (w1, L_Counted email))"
| "step_RequestLogin e body (L_Counted email) w =
     (case login_create e email w of
        (w1, Some r) \<Rightarrow> (w1, L_Done r)
      | (w1, None) \<Rightarrow> (w1, L_Created email))"
| "step_RequestLogin e body (L_Created email) w =
     (case login_send e email w of (w1, r) \<Rightarrow> (w1, L_Done r))"
| "step_RequestLogin e body (L_Done r) w = (w, L_Done r)"

text \<open>A request in flight: the request as received and where its handler stands. The
  two user routes have one store operation each, so they are either not started or
  answered.\<close>

datatype thread =
  LoginThread login_env "string option" l_thread
  | VerifyThread verify_env string v_thread
  | FeedbackThread feedback_env string "SubmitFeedbackRequest option" f_thread
  | StatusThread bool string "response option"
  | OnboardingThread bool Time string "response option"

fun start :: "request \<Rightarrow> thread" where
  "start (PostAuthRequest e body) = LoginThread e body L_Start"
| "start (GetAuthVerify e tokenValue) = VerifyThread e tokenValue V_Start"
| "start (PostFeedback e userIDHex body) = FeedbackThread e userIDHex body F_Start"
| "start (GetUserStatus fault userIDHex) = StatusThread fault userIDHex None"
| "start (PatchUserOnboarding fault now userIDHex) = OnboardingThread fault now userIDHex None"

fun step_thread :: "string \<Rightarrow> thread \<Rightarrow> World \<Rightarrow> World \<times> thread" where
  "step_thread jwtSecret (LoginThread e body st) w =
     (case step_RequestLogin e body st w of (w1, st1) \<Rightarrow> (w1, LoginThread e body st1))"
| "step_thread jwtSecret (VerifyThread e tokenValue st) w =
     (case step_VerifyToken jwtSecret e tokenValue st w of
        (w1, st1) \<Rightarrow> (w1, VerifyThread e tokenValue st1))"
| "step_thread jwtSecret (FeedbackThread e userIDHex body st) w =
     (case step_SubmitFeedback e userIDHex body st w of
        (w1, st1) \<Rightarrow> (w1, FeedbackThread e userIDHex body st1))"
| "step_thread jwtSecret (StatusThread fault userIDHex None) w =
     (case GetStatus fault userIDHex w of
        (w1, r) \<Rightarrow> (w1, StatusThread fault userIDHex (Some r)))"
| "step_thread jwtSecret (StatusThread fault userIDHex (Some r)) w =
     (w, StatusThread fault userIDHex (Some r))"
| "step_thread jwtSecret (OnboardingThread fault now userIDHex None) w =
     (case CompleteOnboarding fault now userIDHex w of
        (w1, r) \<Rightarrow> (w1, OnboardingThread fault now userIDHex (Some r)))"
| "step_thread jwtSecret (OnboardingThread fault now userIDHex (Some r)) w =
     (w, OnboardingThread fault now userIDHex (Some r))"

text \<open>What happens to the store, one thing at a time: the request at a position of the
  pool takes its next step, or the store makes a TTL pass.\<close>

datatype action =
  Step nat
  | TTLPass Time "AuthToken \<Rightarrow> bool"

fun act :: "string \<Rightarrow> action \<Rightarrow> World \<times> thread list \<Rightarrow> World \<times> thread list" where
  "act jwtSecret (Step i) (w, pool) =
     (if i < length pool then
        (case step_thread jwtSecret (pool ! i) w of (w1, th1) \<Rightarrow> (w1, pool[i := th1]))
      else (w, pool))"
| "act jwtSecret (TTLPass now reached) (w, pool) = (ttl_pass now reached w, pool)"

fun exec :: "string \<Rightarrow> action list \<Rightarrow> World \<times> thread list \<Rightarrow> World \<times> thread list" where
  "exec jwtSecret [] c = c"
| "exec jwtSecret (a # sched) c = exec jwtSecret sched (act jwtSecret a c)"

section \<open>Predicates on executions\<close>

text \<open>A token value is burnt with expiry \<open>x\<close> when every record of that value is marked
  used and expires at \<open>x\<close>.\<close>

definition burnt :: "string \<Rightarrow> Time \<Rightarrow> World \<Rightarrow> bool" where
  "burnt tok x w =
     list_all (\<lambda>t. tok_Token t \<noteq> tok \<or> (tok_IsUsed t \<and> tok_ExpiresAt t = x)) (auth_tokens w)"

text \<open>A login request does not reissue a token value when the UUID generated for it is
  another one.\<close>

fun no_reissue :: "string \<Rightarrow> request \<Rightarrow> bool" where
  "no_reissue tok (PostAuthRequest e body) = (le_uuid e \<noteq> tok)"
| "no_reissue tok (GetAuthVerify e tokenValue) = True"
| "no_reissue tok (PostFeedback e userIDHex body) = True"
| "no_reissue tok (GetUserStatus fault userIDHex) = True"
| "no_reissue tok (PatchUserOnboarding fault now userIDHex) = True"

text \<open>A thread has not been issued a session for a token value: it is no verify request
  for that value answered 200.\<close>

fun not_issued :: "string \<Rightarrow> thread \<Rightarrow> bool" where
  "not_issued tok (VerifyThread e tokenValue (V_Done r)) = (tokenValue \<noteq> tok \<or> fst r \<noteq> StatusOK)"
| "not_issued tok (VerifyThread e tokenValue V_Start) = True"
| "not_issued tok (VerifyThread e tokenValue (V_Checked t)) = True"
| "not_issued tok (VerifyThread e tokenValue (V_Marked t)) = True"
| "not_issued tok (VerifyThread e tokenValue (V_UserMissing t)) = True"
| "not_issued tok (LoginThread e body st) = True"
| "not_issued tok (FeedbackThread e userIDHex body st) = True"
| "not_issued tok (StatusThread fault userIDHex r) = True"
| "not_issued tok (OnboardingThread fault now userIDHex r) = True"

text \<open>A thread cannot bring a burnt token value back: a verify request for it has not
  read the record (it has not started, or it is answered and not with 200), and a login
  request generates another value.\<close>

fun safe_thread :: "string \<Rightarrow> thread \<Rightarrow> bool" where
  "safe_thread tok (VerifyThread e tokenValue V_Start) = True"
| "safe_thread tok (VerifyThread e tokenValue (V_Done r)) = (tokenValue \<noteq> tok \<or> fst r \<noteq> StatusOK)"
| "safe_thread tok (VerifyThread e tokenValue (V_Checked t)) = (tokenValue \<noteq> tok)"
| "safe_thread tok (VerifyThread e tokenValue (V_Marked t)) = (tokenValue \<noteq> tok)"
| "safe_thread tok (VerifyThread e tokenValue (V_UserMissing t)) = (tokenValue \<noteq> tok)"
| "safe_thread tok (LoginThread e body st) = (le_uuid e \<noteq> tok)"
| "safe_thread tok (FeedbackThread e userIDHex body st) = True"
| "safe_thread tok (StatusThread fault userIDHex r) = True"
| "safe_thread tok (OnboardingThread fault now userIDHex r) = True"

text \<open>An action leaves records that expire at \<open>x\<close> alone: it is no TTL pass at or after
  \<open>x\<close>.\<close>

fun ttl_before :: "Time \<Rightarrow> action \<Rightarrow> bool" where
  "ttl_before x (Step i) = True"
| "ttl_before x (TTLPass now reached) = (bson_time now < x)"

section \<open>Example worlds\<close>

text \<open>Concrete inputs on which the theorems below are instantiated. Times are in
  nanoseconds; stored times are whole milliseconds. One unused login token for an address
  that has no user yet, created at 0.1 s and expiring at 1 s.\<close>

definition ex_token :: AuthToken where
  "ex_token = \<lparr>tok_ID = 1, tok_Email = ''new@ex.com'', tok_Token = ''T1'',
                tok_ExpiresAt = 1000000000, tok_IsUsed = False, tok_CreatedAt = 100000000\<rparr>"

definition ex_world :: World where
  "ex_world = \<lparr>auth_tokens = [ex_token], users = [], feedbacks = [], logs = [],
                outbox = [], slack = []\<rparr>"

definition ex_user_env :: user_env where
  "ex_user_env = \<lparr>ue_find_fault = False, ue_create_fault = False,
                   ue_now_created = 900000123, ue_now_updated = 900000456, ue_new_id = 7\<rparr>"

text \<open>A fault-free verify request all of whose clock readings are \<open>now\<close>.\<close>

definition ex_verify_env :: "Time \<Rightarrow> verify_env" where
  "ex_verify_env now =
     \<lparr>ve_find_token_fault = False, ve_now_check = now, ve_mark_fault = False,
      ve_user = ex_user_env, ve_now_exp = now, ve_now_iat = now, ve_sign_fault = False\<rparr>"


text \<open>A user who already exists for the example token's address, and a second token
  for that address.\<close>

definition ex_user :: User where
  "ex_user = \<lparr>usr_ID = 3, usr_Email = ''new@ex.com'', usr_OnboardingCompleted = True,
               usr_CreatedAt = 50000000, usr_UpdatedAt = 60000000\<rparr>"

definition ex_token2 :: AuthToken where
  "ex_token2 = \<lparr>tok_ID = 2, tok_Email = ''new@ex.com'', tok_Token = ''T2'',
                 tok_ExpiresAt = 1000000000, tok_IsUsed = False, tok_CreatedAt = 200000000\<rparr>"

text \<open>Five login tokens for one address, issued ten seconds apart from time 0, and a
  fault-free login request made at time \<open>now\<close>.\<close>

definition ex_login_token :: "nat \<Rightarrow> AuthToken" where
  "ex_login_token i =
     \<lparr>tok_ID = i, tok_Email = ''a@ex.com'', tok_Token = Hex i,
      tok_ExpiresAt = int i * 10 * Second + 15 * Minute, tok_IsUsed = False,
      tok_CreatedAt = int i * 10 * Second\<rparr>"

definition ex_login_world :: World where
  "ex_login_world =
     \<lparr>auth_tokens = map ex_login_token [0, 1, 2, 3, 4], users = [], feedbacks = [],
      logs = [], outbox = [], slack = []\<rparr>"

definition ex_login_env :: "Time \<Rightarrow> login_env" where
  "ex_login_env now =
     \<lparr>le_count_fault = False, le_now_count = now, le_uuid = ''6f1c'', le_now_expiry = now,
      le_create_fault = False, le_now_created = now, le_new_id = 99, le_BASE_URL = [],
      le_tls = False, le_forwarded_proto = [], le_host = ''localhost:8080'',
      le_RESEND_API_KEY = ''re_key'', le_send_fault = False\<rparr>"

text \<open>A feedback request of user 7 with idempotency key \<open>k1\<close>, and the Go value and
  the stored document it makes when the store assigns id 11 and the clock reads
  2.000000123 s.\<close>

definition ex_uid :: string where
  "ex_uid = ''000000000000000000000007''"

definition ex_req :: SubmitFeedbackRequest where
  "ex_req = \<lparr>req_Text = ''great app'', req_Rating = 5, req_IdempotencyKey = ''k1''\<rparr>"

definition ex_feedback_env :: "ObjectID \<Rightarrow> feedback_env" where
  "ex_feedback_env new_id =
     \<lparr>fe_find_fault = False, fe_create_fault = False, fe_now_created = 2000000123,
      fe_new_id = new_id\<rparr>"

definition ex_feedback :: Feedback where
  "ex_feedback = \<lparr>fb_ID = 11, fb_UserID = 7, fb_Text = ''great app'', fb_Rating = 5,
                   fb_IdempotencyKey = ''k1'', fb_CreatedAt = 2000000123\<rparr>"

definition ex_feedback_stored :: Feedback where
  "ex_feedback_stored = ex_feedback\<lparr>fb_CreatedAt := 2000000000\<rparr>"

section \<open>Lists and the store primitives\<close>

lemmas ex_defs = ex_token_def ex_world_def ex_user_env_def ex_verify_env_def

lemmas verify_defs = VerifyToken_def verify_lookup_def verify_mark_def verify_user_failed_def
  verify_issue_def FindByToken_def MarkUsed_def FindOrCreate_def FindOrCreate_create_def
  FindByEmail_def UserRepo_Create_def IsExpired_def logline_def

lemmas login_defs = login_count_def login_create_def login_send_def CountRecentByEmail_def
  AuthTokenRepo_Create_def sendLoginEmail_def logline_def

lemmas fb_defs = ex_uid_def ex_req_def ex_feedback_env_def ex_feedback_def
  ex_feedback_stored_def ex_world_def

lemmas submit_defs = SubmitFeedback_def submit_lookup_def submit_create_def
  FindByIdempotencyKey_def FeedbackRepo_Create_def logline_def

lemmas thread_defs = ex_defs verify_defs ttl_pass_def bson_time_def Millisecond_def Let_def

lemma find_update_first:
  assumes "\<And>x. P x \<Longrightarrow> P (f x)"
  shows "find P (update_first P f xs) = map_option f (find P xs)"
  using assms by (induction xs) auto

lemma find_mark_used:
  "find (\<lambda>t. tok_Token t = tok)
     (update_first (\<lambda>t. tok_Token t = tok) (\<lambda>t. t\<lparr>tok_IsUsed := True\<rparr>) xs)
   = map_option (\<lambda>t. t\<lparr>tok_IsUsed := True\<rparr>) (find (\<lambda>t. tok_Token t = tok) xs)"
  by (rule find_update_first) simp

lemma find_None_list_ex: "find P xs = None \<longleftrightarrow> \<not> list_ex P xs"
  by (auto simp: find_None_iff list_ex_iff)

lemma find_Some_set: "find P xs = Some x \<Longrightarrow> x \<in> set xs \<and> P x"
  by (induction xs) (auto split: if_splits)

lemma list_all_update_first:
  assumes "list_all Q xs" and "\<And>x. Q x \<Longrightarrow> Q (f x)"
  shows "list_all Q (update_first P f xs)"
  using assms by (induction xs) auto

lemma list_ex_update_first:
  assumes "list_ex Q xs" and "\<And>x. Q x \<Longrightarrow> Q (f x)"
  shows "list_ex Q (update_first P f xs)"
  using assms by (induction xs) auto

lemma map_update_first:
  assumes "\<And>x. g (f x) = g x"
  shows "map g (update_first P f xs) = map g xs"
  using assms by (induction xs) auto

lemma list_all_list_update:
  "list_all Q xs \<Longrightarrow> Q y \<Longrightarrow> list_all Q (xs[i := y])"
  by (induction xs arbitrary: i) (auto split: nat.splits)

lemma distinct_find_unique:
  assumes "distinct (map g xs)" and "find (\<lambda>x. g x = v) xs = Some a"
    and "b \<in> set xs" and "g b = v"
  shows "b = a"
proof -
  from assms(2) have "a \<in> set xs" and "g a = v"
    using find_Some_set [of "\<lambda>x. g x = v" xs a] by simp_all
  with assms(1,3,4) show ?thesis
    by (metis distinct_map inj_onD)
qed

section \<open>Times, BSON dates and hexadecimal ids\<close>

lemma div_mult_le_iff:
  fixes s q M :: int
  assumes "0 < M"
  shows "((s div M) * M \<le> q * M) = (s < q * M + M)"
proof
  assume "(s div M) * M \<le> q * M"
  with assms have "s div M \<le> q" by simp
  moreover have "s = (s div M) * M + s mod M" by simp
  moreover have "s mod M < M" using assms by simp
  ultimately show "s < q * M + M"
    by (smt (verit) assms mult_right_mono)
next
  assume a: "s < q * M + M"
  have "s div M \<le> q"
  proof (rule ccontr)
    assume "\<not> s div M \<le> q"
    then have "q + 1 \<le> s div M" by simp
    with assms have "(q + 1) * M \<le> (s div M) * M"
      by (intro mult_right_mono) simp_all
    moreover have "(s div M) * M \<le> s"
    proof -
      have "s = (s div M) * M + s mod M" by simp
      moreover have "0 \<le> s mod M" using assms by simp
      ultimately show ?thesis by linarith
    qed
    ultimately show False
      using a by (simp add: algebra_simps)
  qed
  with assms show "(s div M) * M \<le> q * M" by simp
qed

lemma bson_time_le_stored:
  assumes "bson_time c = c"
  shows "(bson_time s \<le> c) = (s < c + Millisecond)"
proof -
  have M: "(0::int) < Millisecond" by (simp add: Millisecond_def)
  from assms have c: "c = (c div Millisecond) * Millisecond"
    by (simp add: bson_time_def)
  have "(bson_time s \<le> (c div Millisecond) * Millisecond)
        = (s < (c div Millisecond) * Millisecond + Millisecond)"
    unfolding bson_time_def by (rule div_mult_le_iff [OF M])
  with c show ?thesis by simp
qed

lemma Unix_add_Hours: "Unix (t + n * Hour) = Unix t + n * 3600"
proof -
  have "Hour = 3600 * Second"
    by (simp add: Hour_def Minute_def)
  then have "t + n * Hour = t + (n * 3600) * Second"
    by simp
  moreover have "(t + (n * 3600) * Second) div Second = t div Second + n * 3600"
    by (simp add: Second_def)
  ultimately show ?thesis
    by (simp only: Unix_def)
qed

lemma length_hex_of: "length (hex_of k n) = k"
  by (induction k arbitrary: n) simp_all

lemma length_Hex: "length (Hex n) = 24"
  by (simp add: Hex_def length_hex_of)

lemma Hex_neq: "length s \<noteq> 24 \<Longrightarrow> Hex n \<noteq> s"
  using length_Hex by blast

lemma ex_uid_parses: "ObjectIDFromHex ex_uid = Inr 7"
  unfolding ex_uid_def by code_simp

lemma ex_world_distinct: "distinct (map tok_Token (auth_tokens ex_world))"
  by (simp add: ex_defs)

section \<open>What one step does to the token collection\<close>

text \<open>A step leaves the token records alone, or appends the record of a login request
  (whose value no record had), or marks the first record of a verify request's value.\<close>

lemma step_RequestLogin_tokens:
  "auth_tokens (fst (step_RequestLogin e body st w)) = auth_tokens w \<or>
   (\<exists>t. auth_tokens (fst (step_RequestLogin e body st w)) = auth_tokens w @ [t] \<and>
        tok_Token t = le_uuid e \<and>
        \<not> list_ex (\<lambda>t'. tok_Token t' = le_uuid e) (auth_tokens w))"
  by (cases st)
     (auto simp: login_defs login_token_def stored_AuthToken_def Let_def
        split: option.splits sum.splits prod.splits if_splits)

lemma step_VerifyToken_tokens:
  "auth_tokens (fst (step_VerifyToken k e tok st w)) = auth_tokens w \<or>
   auth_tokens (fst (step_VerifyToken k e tok st w))
     = update_first (\<lambda>t. tok_Token t = tok) (\<lambda>t. t\<lparr>tok_IsUsed := True\<rparr>) (auth_tokens w)"
  by (cases st)
     (auto simp: verify_defs Let_def
        split: option.splits sum.splits prod.splits if_splits)

lemma step_SubmitFeedback_tokens:
  "auth_tokens (fst (step_SubmitFeedback e uid body st w)) = auth_tokens w"
  by (cases st)
     (auto simp: submit_defs Let_def
        split: option.splits sum.splits prod.splits if_splits)

lemma GetStatus_tokens: "auth_tokens (fst (GetStatus fault uid w)) = auth_tokens w"
  by (auto simp: GetStatus_def FindByID_def logline_def
      split: prod.splits sum.splits option.splits if_splits)

lemma CompleteOnboarding_tokens:
  "auth_tokens (fst (CompleteOnboarding fault now uid w)) = auth_tokens w"
  by (auto simp: CompleteOnboarding_def UpdateOnboarding_def logline_def
      split: prod.splits sum.splits option.splits if_splits)

lemma step_thread_tokens:
  "auth_tokens (fst (step_thread k th w)) = auth_tokens w \<or>
   (\<exists>t e body st. th = LoginThread e body st \<and>
        auth_tokens (fst (step_thread k th w)) = auth_tokens w @ [t] \<and>
        tok_Token t = le_uuid e \<and>
        \<not> list_ex (\<lambda>t'. tok_Token t' = le_uuid e) (auth_tokens w)) \<or>
   (\<exists>e tok st. th = VerifyThread e tok st \<and>
        auth_tokens (fst (step_thread k th w))
          = update_first (\<lambda>t. tok_Token t = tok) (\<lambda>t. t\<lparr>tok_IsUsed := True\<rparr>)
              (auth_tokens w))"
proof (cases th)
  case (LoginThread e body st)
  with step_RequestLogin_tokens [of e body st w] show ?thesis
    by (auto split: prod.splits)
next
  case (VerifyThread e tok st)
  with step_VerifyToken_tokens [of k e tok st w] show ?thesis
    by (auto split: prod.splits)
next
  case (FeedbackThread e uid body st)
  with step_SubmitFeedback_tokens [of e uid body st w] show ?thesis
    by (auto split: prod.splits)
next
  case (StatusThread fault uid r)
  with GetStatus_tokens [of fault uid w] show ?thesis
    by (cases r) (auto split: prod.splits)
next
  case (OnboardingThread fault now uid r)
  with CompleteOnboarding_tokens [of fault now uid w] show ?thesis
    by (cases r) (auto split: prod.splits)
qed

section \<open>A burnt token stays burnt\<close>

lemma burnt_cong: "auth_tokens w' = auth_tokens w \<Longrightarrow> burnt tok x w' = burnt tok x w"
  by (simp add: burnt_def)

lemma step_thread_burnt:
  assumes "burnt tok x w" and "safe_thread tok th"
  shows "burnt tok x (fst (step_thread k th w))"
proof -
  from step_thread_tokens [of k th w]
  consider (same) "auth_tokens (fst (step_thread k th w)) = auth_tokens w"
    | (app) t e body st where "th = LoginThread e body st"
        "auth_tokens (fst (step_thread k th w)) = auth_tokens w @ [t]" "tok_Token t = le_uuid e"
    | (mark) e tv st where "th = VerifyThread e tv st"
        "auth_tokens (fst (step_thread k th w))
          = update_first (\<lambda>t. tok_Token t = tv) (\<lambda>t. t\<lparr>tok_IsUsed := True\<rparr>) (auth_tokens w)"
    by blast
  then show ?thesis
  proof cases
    case same
    with assms(1) show ?thesis by (simp add: burnt_def)
  next
    case app
    with assms show ?thesis by (simp add: burnt_def)
  next
    case mark
    have "list_all (\<lambda>t. tok_Token t \<noteq> tok \<or> (tok_IsUsed t \<and> tok_ExpiresAt t = x))
            (update_first (\<lambda>t. tok_Token t = tv) (\<lambda>t. t\<lparr>tok_IsUsed := True\<rparr>) (auth_tokens w))"
      using assms(1) by (intro list_all_update_first) (auto simp: burnt_def)
    with mark show ?thesis by (simp add: burnt_def)
  qed
qed

text \<open>Under a burnt token the lookup stretch of a verify request for it never hands the
  record on.\<close>

lemma verify_lookup_burnt:
  assumes "burnt tok x w"
  shows "\<exists>r. snd (verify_lookup e tok w) = Inl r \<and> fst r \<noteq> StatusOK"
proof (cases "find (\<lambda>t. tok_Token t = tok) (auth_tokens w)")
  case None
  then show ?thesis
    by (simp add: verify_lookup_def FindByToken_def)
next
  case (Some t)
  with find_Some_set [OF Some] assms have "tok_IsUsed t"
    by (auto simp: burnt_def list_all_iff)
  with Some show ?thesis
    by (simp add: verify_lookup_def FindByToken_def)
qed

lemma step_thread_safe:
  assumes "burnt tok x w" and "safe_thread tok th"
  shows "safe_thread tok (snd (step_thread k th w))"
proof (cases th)
  case (LoginThread e body st)
  with assms(2) show ?thesis by (simp split: prod.splits)
next
  case (VerifyThread e tv st)
  show ?thesis
  proof (cases "tv = tok")
    case False
    with VerifyThread show ?thesis
      by (cases "snd (step_VerifyToken k e tv st w)") (simp_all add: case_prod_beta)
  next
    case True
    show ?thesis
    proof (cases st)
      case V_Start
      from verify_lookup_burnt [OF assms(1), of e] obtain r
        where "snd (verify_lookup e tok w) = Inl r" "fst r \<noteq> StatusOK"
        by blast
      with VerifyThread True V_Start show ?thesis
        by (cases "verify_lookup e tok w") simp
    next
      case (V_Done r)
      with VerifyThread True assms(2) show ?thesis by simp
    qed (use VerifyThread True assms(2) in simp_all)
  qed
next
  case (FeedbackThread e uid body st)
  then show ?thesis by (simp split: prod.splits)
next
  case (StatusThread fault uid r)
  then show ?thesis by (cases r) (simp_all split: prod.splits)
next
  case (OnboardingThread fault now uid r)
  then show ?thesis by (cases r) (simp_all split: prod.splits)
qed

lemma ttl_pass_burnt: "burnt tok x w \<Longrightarrow> burnt tok x (ttl_pass now reached w)"
  by (simp add: burnt_def ttl_pass_def list_all_iff)

lemma act_burnt:
  assumes "burnt tok x (fst c)" and "list_all (safe_thread tok) (snd c)"
  shows "burnt tok x (fst (act k a c)) \<and> list_all (safe_thread tok) (snd (act k a c))"
proof (cases c)
  case (Pair w pool)
  show ?thesis
  proof (cases a)
    case (TTLPass now reached)
    with Pair assms show ?thesis by (simp add: ttl_pass_burnt)
  next
    case (Step i)
    show ?thesis
    proof (cases "i < length pool")
      case False
      with Pair Step assms show ?thesis by simp
    next
      case True
      with Pair assms(2) have s: "safe_thread tok (pool ! i)"
        by (simp add: list_all_length)
      from Pair assms(1) have b: "burnt tok x w" by simp
      from step_thread_burnt [OF b s, of k] step_thread_safe [OF b s, of k] Pair Step True assms(2)
      show ?thesis
        by (simp add: list_all_list_update case_prod_beta)
    qed
  qed
qed

lemma exec_burnt:
  assumes "burnt tok x (fst c)" and "list_all (safe_thread tok) (snd c)"
  shows "burnt tok x (fst (exec k sched c)) \<and> list_all (safe_thread tok) (snd (exec k sched c))"
  using assms
proof (induction sched arbitrary: c)
  case Nil
  then show ?case by simp
next
  case (Cons a sched)
  from act_burnt [OF Cons.prems, of k a] Cons.IH [of "act k a c"] show ?case
    by simp
qed

lemma safe_thread_not_issued: "safe_thread tok th \<Longrightarrow> not_issued tok th"
  by (induction tok th rule: safe_thread.induct) simp_all

lemma start_safe: "no_reissue tok r \<Longrightarrow> safe_thread tok (start r)"
  by (cases r) simp_all

lemma starts_safe: "list_all (no_reissue tok) reqs \<Longrightarrow> list_all (safe_thread tok) (map start reqs)"
  by (induction reqs) (simp_all add: start_safe)

section \<open>A record that has not expired is still there\<close>

lemma step_thread_present:
  assumes "list_ex (\<lambda>t. tok_Token t = tok) (auth_tokens w)"
  shows "list_ex (\<lambda>t. tok_Token t = tok) (auth_tokens (fst (step_thread k th w)))"
proof -
  from step_thread_tokens [of k th w]
  consider (same) "auth_tokens (fst (step_thread k th w)) = auth_tokens w"
    | (app) t where "auth_tokens (fst (step_thread k th w)) = auth_tokens w @ [t]"
    | (mark) tv where "auth_tokens (fst (step_thread k th w))
          = update_first (\<lambda>t. tok_Token t = tv) (\<lambda>t. t\<lparr>tok_IsUsed := True\<rparr>) (auth_tokens w)"
    by blast
  then show ?thesis
  proof cases
    case same
    with assms show ?thesis by simp
  next
    case app
    with assms show ?thesis by simp
  next
    case mark
    have "list_ex (\<lambda>t. tok_Token t = tok)
            (update_first (\<lambda>t. tok_Token t = tv) (\<lambda>t. t\<lparr>tok_IsUsed := True\<rparr>) (auth_tokens w))"
      using assms by (intro list_ex_update_first) simp_all
    with mark show ?thesis by simp
  qed
qed

lemma ttl_pass_present:
  assumes "list_ex (\<lambda>t. tok_Token t = tok) (auth_tokens w)" and "burnt tok x w"
    and "bson_time now < x"
  shows "list_ex (\<lambda>t. tok_Token t = tok) (auth_tokens (ttl_pass now reached w))"
  using assms by (auto simp: ttl_pass_def burnt_def list_ex_iff list_all_iff)

lemma exec_present:
  assumes "list_ex (\<lambda>t. tok_Token t = tok) (auth_tokens (fst c))"
    and "burnt tok x (fst c)" and "list_all (safe_thread tok) (snd c)"
    and "list_all (ttl_before x) sched"
  shows "list_ex (\<lambda>t. tok_Token t = tok) (auth_tokens (fst (exec k sched c)))"
  using assms
proof (induction sched arbitrary: c)
  case Nil
  then show ?case by simp
next
  case (Cons a sched)
  obtain w pool where c: "c = (w, pool)" by (cases c)
  have p: "list_ex (\<lambda>t. tok_Token t = tok) (auth_tokens (fst (act k a c)))"
  proof (cases a)
    case (Step i)
    with c Cons.prems(1) step_thread_present [of tok w k "pool ! i"] show ?thesis
      by (simp add: case_prod_beta)
  next
    case (TTLPass now reached)
    with c Cons.prems ttl_pass_present [of tok w x now reached] show ?thesis
      by simp
  qed
  from act_burnt [OF Cons.prems(2,3), of k a] Cons.prems(4) Cons.IH [OF p] show ?case
    by simp
qed

section \<open>The unique index on token values holds along every execution\<close>

lemma step_thread_distinct:
  assumes "distinct (map tok_Token (auth_tokens w))"
  shows "distinct (map tok_Token (auth_tokens (fst (step_thread k th w))))"
proof -
  from step_thread_tokens [of k th w]
  consider (same) "auth_tokens (fst (step_thread k th w)) = auth_tokens w"
    | (app) t where "auth_tokens (fst (step_thread k th w)) = auth_tokens w @ [t]"
        "\<not> list_ex (\<lambda>t'. tok_Token t' = tok_Token t) (auth_tokens w)"
    | (mark) tv where "auth_tokens (fst (step_thread k th w))
          = update_first (\<lambda>t. tok_Token t = tv) (\<lambda>t. t\<lparr>tok_IsUsed := True\<rparr>) (auth_tokens w)"
    by metis
  then show ?thesis
  proof cases
    case same
    with assms show ?thesis by simp
  next
    case app
    with assms show ?thesis by (auto simp: list_ex_iff)
  next
    case mark
    have "map tok_Token (update_first (\<lambda>t. tok_Token t = tv) (\<lambda>t. t\<lparr>tok_IsUsed := True\<rparr>)
            (auth_tokens w)) = map tok_Token (auth_tokens w)"
      by (rule map_update_first) simp
    with mark assms show ?thesis by simp
  qed
qed

lemma exec_distinct:
  assumes "distinct (map tok_Token (auth_tokens (fst c)))"
  shows "distinct (map tok_Token (auth_tokens (fst (exec k sched c))))"
  using assms
proof (induction sched arbitrary: c)
  case Nil
  then show ?case by simp
next
  case (Cons a sched)
  obtain w pool where c: "c = (w, pool)" by (cases c)
  have "distinct (map tok_Token (auth_tokens (fst (act k a c))))"
  proof (cases a)
    case (Step i)
    with c Cons.prems step_thread_distinct [of w k "pool ! i"] show ?thesis
      by (simp add: case_prod_beta)
  next
    case (TTLPass now reached)
    with c Cons.prems show ?thesis
      by (simp add: ttl_pass_def distinct_map_filter)
  qed
  from Cons.IH [OF this] show ?case by simp
qed

section \<open>The path of a redemption\<close>

lemma verify_lookup_Inr:
  "verify_lookup e tok w = (w1, Inr t) \<longleftrightarrow>
     w1 = w \<and> tok \<noteq> [] \<and> \<not> ve_find_token_fault e \<and>
     find (\<lambda>t. tok_Token t = tok) (auth_tokens w) = Some t \<and>
     \<not> tok_ExpiresAt t < ve_now_check e \<and> \<not> tok_IsUsed t"
  by (auto simp: verify_lookup_def FindByToken_def IsExpired_def
      split: option.splits if_splits)

lemma verify_mark_None:
  "verify_mark e tok w = (w2, None) \<longleftrightarrow>
     \<not> ve_mark_fault e \<and>
     w2 = w\<lparr>auth_tokens := update_first (\<lambda>t. tok_Token t = tok)
            (\<lambda>t. t\<lparr>tok_IsUsed := True\<rparr>) (auth_tokens w)\<rparr>"
  by (auto simp: verify_mark_def MarkUsed_def)

lemma VerifyToken_after_mark:
  assumes "verify_lookup e tok w = (w1, Inr t)" and "verify_mark e tok w1 = (w2, None)"
  shows "VerifyToken k e tok w =
     (case FindOrCreate (ve_user e) (tok_Email t) w2 of
        (w3, Inl err) \<Rightarrow> verify_user_failed w3
      | (w3, Inr user) \<Rightarrow> verify_issue k e user w3)"
  using assms by (simp add: VerifyToken_def)

lemma FindOrCreate_auth_tokens:
  "auth_tokens (fst (FindOrCreate ue email w)) = auth_tokens w"
  by (simp add: FindOrCreate_def FindOrCreate_create_def FindByEmail_def UserRepo_Create_def
      Let_def split: option.splits)

lemma verify_issue_auth_tokens:
  "auth_tokens (fst (verify_issue k e u w)) = auth_tokens w"
  by (simp add: verify_issue_def logline_def Let_def)

lemma verify_user_failed_auth_tokens:
  "auth_tokens (fst (verify_user_failed w)) = auth_tokens w"
  by (simp add: verify_user_failed_def logline_def)

text \<open>Once the mark has succeeded, whatever follows in the request, the token collection
  is the one the mark left.\<close>

lemma VerifyToken_marked_tokens:
  assumes "verify_lookup e tok w = (w1, Inr t)" and "verify_mark e tok w1 = (w2, None)"
  shows "auth_tokens (fst (VerifyToken k e tok w))
         = update_first (\<lambda>t. tok_Token t = tok) (\<lambda>t. t\<lparr>tok_IsUsed := True\<rparr>) (auth_tokens w)"
proof -
  from assms(1) have w1: "w1 = w"
    by (simp add: verify_lookup_Inr)
  from assms(2) have w2: "auth_tokens w2 = update_first (\<lambda>t. tok_Token t = tok)
            (\<lambda>t. t\<lparr>tok_IsUsed := True\<rparr>) (auth_tokens w1)"
    by (simp add: verify_mark_None)
  have "auth_tokens (fst (VerifyToken k e tok w)) = auth_tokens w2"
    unfolding VerifyToken_after_mark [OF assms]
    by (simp add: case_prod_beta FindOrCreate_auth_tokens verify_issue_auth_tokens
        verify_user_failed_auth_tokens split: sum.splits)
  then show ?thesis
    by (simp add: w2 w1)
qed

lemma VerifyToken_marked:
  assumes "verify_lookup e tok w = (w1, Inr t)" and "verify_mark e tok w1 = (w2, None)"
  shows "find (\<lambda>t. tok_Token t = tok) (auth_tokens (fst (VerifyToken k e tok w)))
         = Some (t\<lparr>tok_IsUsed := True\<rparr>)"
proof -
  from assms(1) have "find (\<lambda>t. tok_Token t = tok) (auth_tokens w) = Some t"
    by (simp add: verify_lookup_Inr)
  then show ?thesis
    by (simp add: VerifyToken_marked_tokens [OF assms] find_mark_used)
qed

text \<open>With the unique index in place the marked record is the only one of its value, so
  the mark burns the token value.\<close>

lemma update_first_unique:
  assumes "distinct (map g xs)" and "\<And>x. g (f x) = g x"
    and "find (\<lambda>x. g x = v) xs = Some a"
  shows "list_all (\<lambda>y. g y \<noteq> v \<or> y = f a) (update_first (\<lambda>x. g x = v) f xs)"
  using assms
proof (induction xs)
  case Nil
  then show ?case by simp
next
  case (Cons x xs)
  show ?case
  proof (cases "g x = v")
    case True
    with Cons.prems have "a = x" and "\<forall>y\<in>set xs. g y \<noteq> v"
      by (auto simp: image_iff)
    with True show ?thesis
      by (simp add: list_all_iff)
  next
    case False
    with Cons show ?thesis by simp
  qed
qed

lemma VerifyToken_burns:
  assumes "verify_lookup e tok w = (w1, Inr t)" and "verify_mark e tok w1 = (w2, None)"
    and "distinct (map tok_Token (auth_tokens w))"
  shows "burnt tok (tok_ExpiresAt t) (fst (VerifyToken k e tok w))"
proof -
  from assms(1) have f: "find (\<lambda>t. tok_Token t = tok) (auth_tokens w) = Some t"
    by (simp add: verify_lookup_Inr)
  have "list_all (\<lambda>y. tok_Token y \<noteq> tok \<or> y = t\<lparr>tok_IsUsed := True\<rparr>)
          (update_first (\<lambda>t. tok_Token t = tok) (\<lambda>t. t\<lparr>tok_IsUsed := True\<rparr>) (auth_tokens w))"
    by (rule update_first_unique [OF assms(3) _ f]) simp
  then show ?thesis
    by (auto simp: burnt_def VerifyToken_marked_tokens [OF assms(1,2)] list_all_iff)
qed

text \<open>A verify request for a burnt token value: the four possible answers.\<close>

lemma VerifyToken_burnt_answer:
  assumes "burnt tok x w" and "tok \<noteq> []"
  shows "snd (VerifyToken k e tok w) =
      (if ve_find_token_fault e
         then (StatusInternalServerError, ErrorBody ''internal server error'')
       else if find (\<lambda>t. tok_Token t = tok) (auth_tokens w) = None
         then (StatusUnauthorized, ErrorBody ''invalid token'')
       else if x < ve_now_check e
         then (StatusUnauthorized, ErrorBody ''token has expired'')
       else (StatusUnauthorized, ErrorBody ''token has already been used''))"
proof (cases "find (\<lambda>t. tok_Token t = tok) (auth_tokens w)")
  case None
  with assms(2) show ?thesis
    by (simp add: VerifyToken_def verify_lookup_def FindByToken_def)
next
  case (Some t)
  with find_Some_set [OF Some] assms(1) have "tok_IsUsed t" and "tok_ExpiresAt t = x"
    by (auto simp: burnt_def list_all_iff)
  with Some assms(2) show ?thesis
    by (simp add: VerifyToken_def verify_lookup_def FindByToken_def IsExpired_def)
qed

text \<open>A 200 answer is reached only through a successful lookup, both validations and a
  successful mark.\<close>

lemma VerifyToken_OK_path:
  assumes "fst (snd (VerifyToken k e tok w)) = StatusOK"
  shows "\<exists>t w2. verify_lookup e tok w = (w, Inr t) \<and> verify_mark e tok w = (w2, None)"
  using assms
  by (auto simp: VerifyToken_def verify_lookup_def verify_mark_def MarkUsed_def
      FindByToken_def verify_user_failed_def logline_def
      split: prod.splits sum.splits option.splits if_splits)

text \<open>What holds from a world in which a token value is burnt and its record present,
  for requests that have not started, under any schedule.\<close>

lemma exec_after_burn:
  assumes b: "burnt tok x w" and ne: "tok \<noteq> []"
    and p: "list_ex (\<lambda>t. tok_Token t = tok) (auth_tokens w)"
    and r: "list_all (no_reissue tok) reqs"
  shows "list_all (not_issued tok) (snd (exec k sched (w, map start reqs))) \<and>
     burnt tok x (fst (exec k sched (w, map start reqs))) \<and>
     snd (VerifyToken k e2 tok (fst (exec k sched (w, map start reqs)))) =
       (if ve_find_token_fault e2
          then (StatusInternalServerError, ErrorBody ''internal server error'')
        else if find (\<lambda>t. tok_Token t = tok)
                  (auth_tokens (fst (exec k sched (w, map start reqs)))) = None
          then (StatusUnauthorized, ErrorBody ''invalid token'')
        else if x < ve_now_check e2
          then (StatusUnauthorized, ErrorBody ''token has expired'')
        else (StatusUnauthorized, ErrorBody ''token has already been used'')) \<and>
     (list_all (ttl_before x) sched \<longrightarrow>
        find (\<lambda>t. tok_Token t = tok) (auth_tokens (fst (exec k sched (w, map start reqs))))
          \<noteq> None)"
proof -
  let ?c = "(w, map start reqs)"
  have s: "list_all (safe_thread tok) (snd ?c)"
    using r by (simp add: starts_safe)
  have b0: "burnt tok x (fst ?c)"
    using b by simp
  from exec_burnt [OF b0 s, of k sched]
  have b1: "burnt tok x (fst (exec k sched ?c))"
    and s1: "list_all (safe_thread tok) (snd (exec k sched ?c))"
    by simp_all
  from s1 have n: "list_all (not_issued tok) (snd (exec k sched ?c))"
    by (auto simp: list_all_iff safe_thread_not_issued)
  have pr: "list_all (ttl_before x) sched \<longrightarrow>
        find (\<lambda>t. tok_Token t = tok) (auth_tokens (fst (exec k sched ?c))) \<noteq> None"
  proof
    assume "list_all (ttl_before x) sched"
    from exec_present [OF _ b0 s this, of k] p show
      "find (\<lambda>t. tok_Token t = tok) (auth_tokens (fst (exec k sched ?c))) \<noteq> None"
      by (simp add: find_None_list_ex)
  qed
  from n b1 VerifyToken_burnt_answer [OF b1 ne, of k e2] pr show ?thesis
    by simp
qed

section \<open>Token redemption: at most once\<close>

text \<open>
  C1 (as the code has it). Let a \<^verbatim>\<open>VerifyToken\<close> call answer 200 in a store whose
  token values are unique. Let then any requests \<open>reqs\<close> arrive (none of them a login
  request that generates this token value again) and run together under any schedule
  \<open>sched\<close>, with TTL passes of the store in between. Then no verify request for the
  value among them is answered 200, and a \<^verbatim>\<open>VerifyToken\<close> call made afterwards is
  answered 500 if its lookup fails, 401 "invalid token" if a TTL pass has deleted the
  record, 401 "token has expired" if the record is there and the clock has passed its
  expiry (the expiry check comes first), and 401 "token has already been used" otherwise.
  As long as no TTL pass has run at or after the expiry, the record is there.
\<close>

theorem VerifyToken_redeem_once:
  assumes "fst (snd (VerifyToken k e1 tokenValue w)) = StatusOK"
    and "distinct (map tok_Token (auth_tokens w))"
    and "list_all (no_reissue tokenValue) reqs"
  shows "\<exists>t. find (\<lambda>t. tok_Token t = tokenValue) (auth_tokens w) = Some t \<and>
     (case exec k sched (fst (VerifyToken k e1 tokenValue w), map start reqs) of
        (w', pool') \<Rightarrow>
          list_all (not_issued tokenValue) pool' \<and>
          snd (VerifyToken k e2 tokenValue w') =
            (if ve_find_token_fault e2
               then (StatusInternalServerError, ErrorBody ''internal server error'')
             else if find (\<lambda>t. tok_Token t = tokenValue) (auth_tokens w') = None
               then (StatusUnauthorized, ErrorBody ''invalid token'')
             else if tok_ExpiresAt t < ve_now_check e2
               then (StatusUnauthorized, ErrorBody ''token has expired'')
             else (StatusUnauthorized, ErrorBody ''token has already been used'')) \<and>
          (list_all (ttl_before (tok_ExpiresAt t)) sched \<longrightarrow>
             find (\<lambda>t. tok_Token t = tokenValue) (auth_tokens w') \<noteq> None))"
proof -
  from VerifyToken_OK_path [OF assms(1)] obtain t w2
    where l: "verify_lookup e1 tokenValue w = (w, Inr t)"
      and m: "verify_mark e1 tokenValue w = (w2, None)"
    by blast
  from l have f: "find (\<lambda>t. tok_Token t = tokenValue) (auth_tokens w) = Some t"
    and ne: "tokenValue \<noteq> []"
    by (simp_all add: verify_lookup_Inr)
  let ?w1 = "fst (VerifyToken k e1 tokenValue w)"
  have b: "burnt tokenValue (tok_ExpiresAt t) ?w1"
    by (rule VerifyToken_burns [OF l m assms(2)])
  have p: "list_ex (\<lambda>t. tok_Token t = tokenValue) (auth_tokens ?w1)"
    using VerifyToken_marked [OF l m, of k] find_None_list_ex [of "\<lambda>t. tok_Token t = tokenValue"
        "auth_tokens ?w1"]
    by simp
  from exec_after_burn [OF b ne p assms(3), of k sched e2] f show ?thesis
    by (simp add: case_prod_beta)
qed

text \<open>C1, instance: the example token (expiry 1 s) is redeemed at 0.5 s. A second
  request at 0.55 s, and a call at 0.6 s after it, are answered "already used"; after a
  TTL pass at 1.5 s a call is answered "invalid token".\<close>

theorem VerifyToken_redeem_once_witness:
  "fst (snd (VerifyToken ''k'' (ex_verify_env 500000000) ''T1'' ex_world)) = StatusOK \<and>
   exec ''k'' [Step 0]
     (fst (VerifyToken ''k'' (ex_verify_env 500000000) ''T1'' ex_world),
      map start [GetAuthVerify (ex_verify_env 550000000) ''T1''])
     = (fst (VerifyToken ''k'' (ex_verify_env 500000000) ''T1'' ex_world),
        [VerifyThread (ex_verify_env 550000000) ''T1''
           (V_Done (StatusUnauthorized, ErrorBody ''token has already been used''))]) \<and>
   snd (VerifyToken ''k'' (ex_verify_env 600000000) ''T1''
          (fst (exec ''k'' [Step 0]
             (fst (VerifyToken ''k'' (ex_verify_env 500000000) ''T1'' ex_world),
              map start [GetAuthVerify (ex_verify_env 550000000) ''T1'']))))
     = (StatusUnauthorized, ErrorBody ''token has already been used'') \<and>
   snd (VerifyToken ''k'' (ex_verify_env 2000000000) ''T1''
          (fst (exec ''k'' [TTLPass 1500000000 (\<lambda>t. True)]
             (fst (VerifyToken ''k'' (ex_verify_env 500000000) ''T1'' ex_world),
              map start []))))
     = (StatusUnauthorized, ErrorBody ''invalid token'')"
proof -
  have ok: "fst (snd (VerifyToken ''k'' (ex_verify_env 500000000) ''T1'' ex_world)) = StatusOK"
    by (simp add: thread_defs)
  have r1: "list_all (no_reissue ''T1'') [GetAuthVerify (ex_verify_env 550000000) ''T1'']"
    by simp
  have r2: "list_all (no_reissue ''T1'') []"
    by simp
  from VerifyToken_redeem_once [where sched = "[Step 0]"
      and ?e2.0 = "ex_verify_env 600000000", OF ok ex_world_distinct r1]
  have a: "snd (VerifyToken ''k'' (ex_verify_env 600000000) ''T1''
          (fst (exec ''k'' [Step 0]
             (fst (VerifyToken ''k'' (ex_verify_env 500000000) ''T1'' ex_world),
              map start [GetAuthVerify (ex_verify_env 550000000) ''T1'']))))
     = (StatusUnauthorized, ErrorBody ''token has already been used'')"
    by (simp add: thread_defs case_prod_beta)
  from VerifyToken_redeem_once [where sched = "[TTLPass 1500000000 (\<lambda>t. True)]"
      and ?e2.0 = "ex_verify_env 2000000000", OF ok ex_world_distinct r2]
  have b: "snd (VerifyToken ''k'' (ex_verify_env 2000000000) ''T1''
          (fst (exec ''k'' [TTLPass 1500000000 (\<lambda>t. True)]
             (fst (VerifyToken ''k'' (ex_verify_env 500000000) ''T1'' ex_world),
              map start []))))
     = (StatusUnauthorized, ErrorBody ''invalid token'')"
    by (simp add: thread_defs case_prod_beta)
  have c: "exec ''k'' [Step 0]
     (fst (VerifyToken ''k'' (ex_verify_env 500000000) ''T1'' ex_world),
      map start [GetAuthVerify (ex_verify_env 550000000) ''T1''])
     = (fst (VerifyToken ''k'' (ex_verify_env 500000000) ''T1'' ex_world),
        [VerifyThread (ex_verify_env 550000000) ''T1''
           (V_Done (StatusUnauthorized, ErrorBody ''token has already been used''))])"
    by (simp add: thread_defs)
  from ok a b c show ?thesis
    by simp
qed

text \<open>C1 as stated fails: the example token is redeemed at 0.5 s, and the second
  call, made at 2 s after the expiry at 1 s, is answered "token has expired", not "token
  has already been used".\<close>

theorem VerifyToken_second_redeem_counterexample:
  "fst (snd (VerifyToken ''k'' (ex_verify_env 500000000) ''T1'' ex_world)) = StatusOK \<and>
   snd (VerifyToken ''k'' (ex_verify_env 2000000000) ''T1''
          (fst (VerifyToken ''k'' (ex_verify_env 500000000) ''T1'' ex_world)))
     = (StatusUnauthorized, ErrorBody ''token has expired'') \<and>
   snd (VerifyToken ''k'' (ex_verify_env 2000000000) ''T1''
          (fst (VerifyToken ''k'' (ex_verify_env 500000000) ''T1'' ex_world)))
     \<noteq> (StatusUnauthorized, ErrorBody ''token has already been used'')"
  by (simp add: thread_defs)

section \<open>Token redemption: expiry\<close>

text \<open>
  C4 (as the code has it). \<^verbatim>\<open>VerifyToken\<close> answers 401 "token has expired" exactly
  when the token value is non-empty, the lookup succeeds and finds a record, and the clock
  reading is strictly after the record's expiry. Whether the record is used plays no
  role, and a record whose expiry has not been passed is never rejected as expired. At
  the instant \<open>now = expiry\<close> the token is still accepted.
\<close>

theorem VerifyToken_expired_iff:
  "snd (VerifyToken jwtSecret e tokenValue w)
     = (StatusUnauthorized, ErrorBody ''token has expired'')
   \<longleftrightarrow> tokenValue \<noteq> [] \<and> \<not> ve_find_token_fault e \<and>
       (\<exists>t. find (\<lambda>t. tok_Token t = tokenValue) (auth_tokens w) = Some t \<and>
            tok_ExpiresAt t < ve_now_check e)"
  by (auto simp: VerifyToken_def verify_lookup_def FindByToken_def IsExpired_def verify_mark_def
      MarkUsed_def verify_user_failed_def verify_issue_def Let_def
      split: prod.splits sum.splits option.splits if_splits)

text \<open>C4, instance: one nanosecond after its expiry the unused example token is
  rejected as expired.\<close>

theorem VerifyToken_expired_iff_witness:
  "snd (VerifyToken ''k'' (ex_verify_env 1000000001) ''T1'' ex_world)
     = (StatusUnauthorized, ErrorBody ''token has expired'')"
proof -
  have "find (\<lambda>t. tok_Token t = ''T1'') (auth_tokens ex_world) = Some ex_token \<and>
        tok_ExpiresAt ex_token < ve_now_check (ex_verify_env 1000000001)"
    by (simp add: ex_defs)
  then show ?thesis
    using VerifyToken_expired_iff [of "''k''" "ex_verify_env 1000000001" "''T1''" ex_world]
    by (simp add: ex_verify_env_def)
qed

text \<open>C4 as stated fails at the boundary: with the clock reading equal to the expiry,
  the unused example token is redeemed with status 200.\<close>

theorem VerifyToken_boundary_counterexample:
  "ve_now_check (ex_verify_env 1000000000) = tok_ExpiresAt ex_token \<and>
   find (\<lambda>t. tok_Token t = ''T1'') (auth_tokens ex_world) = Some ex_token \<and>
   fst (snd (VerifyToken ''k'' (ex_verify_env 1000000000) ''T1'' ex_world)) = StatusOK"
  by (simp add: ex_defs verify_defs Let_def)

section \<open>Token redemption: first login\<close>

text \<open>
  C9. Redeeming a valid token (found, not past its expiry, unused) for an address no
  user has, with no store or signing failure, marks the token used, stores a new user
  with \<open>onboarding_completed = false\<close>, and answers 200 with that user (the Go value,
  whose times keep their nanoseconds) and a credential signed with the handler's secret
  whose claims are the new user's id in hexadecimal, the address, \<open>iat\<close> = the clock in
  seconds and \<open>exp\<close> = the clock in seconds plus 30 days.
\<close>

theorem VerifyToken_new_user:
  assumes "tokenValue \<noteq> []"
    and "find (\<lambda>t. tok_Token t = tokenValue) (auth_tokens w) = Some t"
    and "\<not> tok_ExpiresAt t < ve_now_check e" and "\<not> tok_IsUsed t"
    and "find (\<lambda>u. usr_Email u = tok_Email t) (users w) = None"
    and "\<not> ve_find_token_fault e" and "\<not> ve_mark_fault e"
    and "\<not> ue_find_fault (ve_user e)" and "\<not> ue_create_fault (ve_user e)"
    and "\<not> ve_sign_fault e"
  shows "VerifyToken jwtSecret e tokenValue w =
     (let newUser = \<lparr>usr_ID = ue_new_id (ve_user e), usr_Email = tok_Email t,
                      usr_OnboardingCompleted = False,
                      usr_CreatedAt = ue_now_created (ve_user e),
                      usr_UpdatedAt = ue_now_updated (ve_user e)\<rparr>;
          claims = \<lparr>claim_user_id = Hex (usr_ID newUser), claim_email = tok_Email t,
                     claim_exp = Unix (ve_now_exp e) + 30 * 24 * 3600,
                     claim_iat = Unix (ve_now_iat e)\<rparr>
      in (w\<lparr>auth_tokens := update_first (\<lambda>t. tok_Token t = tokenValue)
                (\<lambda>t. t\<lparr>tok_IsUsed := True\<rparr>) (auth_tokens w),
            users := users w @ [stored_User newUser]\<rparr>,
          (StatusOK, VerifyBody (HS256 claims jwtSecret) newUser)))"
proof -
  from assms(5) have "\<not> list_ex (\<lambda>u. usr_Email u = tok_Email t) (users w)"
    by (simp add: find_None_list_ex)
  with assms show ?thesis
    by (simp add: VerifyToken_def verify_lookup_def FindByToken_def IsExpired_def
        verify_mark_def MarkUsed_def FindOrCreate_def FindByEmail_def FindOrCreate_create_def
        UserRepo_Create_def verify_issue_def Unix_add_Hours Let_def)
qed

text \<open>C9, instance: the example token, redeemed at 0.5 s in a world without users.\<close>

theorem VerifyToken_new_user_witness:
  "VerifyToken ''k'' (ex_verify_env 500000000) ''T1'' ex_world =
     (ex_world\<lparr>auth_tokens := [ex_token\<lparr>tok_IsUsed := True\<rparr>],
        users := [\<lparr>usr_ID = 7, usr_Email = ''new@ex.com'', usr_OnboardingCompleted = False,
                   usr_CreatedAt = 900000000, usr_UpdatedAt = 900000000\<rparr>]\<rparr>,
      (StatusOK,
       VerifyBody
         (HS256 \<lparr>claim_user_id = ''000000000000000000000007'', claim_email = ''new@ex.com'',
                 claim_exp = 2592000, claim_iat = 0\<rparr> ''k'')
         \<lparr>usr_ID = 7, usr_Email = ''new@ex.com'', usr_OnboardingCompleted = False,
           usr_CreatedAt = 900000123, usr_UpdatedAt = 900000456\<rparr>))"
proof -
  have h: "Hex 7 = ''000000000000000000000007''"
    by code_simp
  have u: "Unix 500000000 = 0"
    by (simp add: Unix_def Second_def)
  have "find (\<lambda>t. tok_Token t = ''T1'') (auth_tokens ex_world) = Some ex_token"
    by (simp add: ex_defs)
  from VerifyToken_new_user [of "''T1''" ex_world ex_token "ex_verify_env 500000000" "''k''",
      OF _ this]
  show ?thesis
    by (simp add: ex_defs h u stored_User_def bson_time_def Millisecond_def Let_def)
qed

section \<open>Token redemption: failure after the mark\<close>




section \<open>Login requests: the rate limit\<close>

lemma RequestLogin_stretches:
  "RequestLogin e body w =
     (case login_count e body w of
        (w1, Inl r) \<Rightarrow> (w1, r)
      | (w1, Inr email) \<Rightarrow>
          (case login_create e email w1 of
             (w2, Some r) \<Rightarrow> (w2, r)
           | (w2, None) \<Rightarrow> login_send e email w2))"
  by (auto simp: RequestLogin_def login_count_def login_create_def login_send_def
      split: option.splits sum.splits prod.splits)

lemma CountRecentByEmail_Inr:
  "CountRecentByEmail fault now email d w = Inr n \<longleftrightarrow>
     \<not> fault \<and>
     n = int (length (filter (\<lambda>t. tok_Email t = email \<and> bson_time (now - d) \<le> tok_CreatedAt t)
                        (auth_tokens w)))"
  by (auto simp: CountRecentByEmail_def Let_def)

lemma ten_Minutes: "10 * Minute = 600000000000"
  by (simp add: Minute_def Second_def)

text \<open>
  C5 (as the code has it). For a request with an email, when the count query succeeds,
  its result \<open>n\<close> is the number of token records of that email whose stored
  \<open>created_at\<close> is at or after \<open>now - 10 minutes\<close> cut down to the millisecond, \<open>now\<close>
  being the clock reading of this call; with stored times in whole milliseconds these are
  the records with \<open>created_at > now - 10 minutes - 1 ms\<close>. The request is answered 429
  exactly when \<open>n \<ge> 5\<close>, and then the world is unchanged: the check writes nothing.
  When \<open>n < 5\<close> the handler goes on to issue: the answer is 200 and the new record is
  stored if the insert succeeds, 500 if it fails.
\<close>

theorem RequestLogin_rate_limit:
  assumes "email \<noteq> []"
    and "CountRecentByEmail (le_count_fault e) (le_now_count e) email (10 * Minute) w = Inr n"
  shows "n = int (length (filter
                (\<lambda>t. tok_Email t = email \<and>
                     bson_time (le_now_count e - 600000000000) \<le> tok_CreatedAt t)
                (auth_tokens w))) \<and>
         (list_all (\<lambda>t. bson_time (tok_CreatedAt t) = tok_CreatedAt t) (auth_tokens w) \<longrightarrow>
            n = int (length (filter
                  (\<lambda>t. tok_Email t = email \<and>
                       le_now_count e - 600000000000 < tok_CreatedAt t + 1000000)
                  (auth_tokens w)))) \<and>
         (fst (snd (RequestLogin e (Some email) w)) = StatusTooManyRequests \<longleftrightarrow> 5 \<le> n) \<and>
         (5 \<le> n \<longrightarrow>
            RequestLogin e (Some email) w =
              (w, (StatusTooManyRequests,
                   ErrorBody ''too many login requests, please try again later''))) \<and>
         (n < 5 \<longrightarrow>
            (case AuthTokenRepo_Create (le_create_fault e) (le_now_created e) (le_new_id e)
                    (login_token e email) w of
               (w1, Inl err) \<Rightarrow>
                 fst (snd (RequestLogin e (Some email) w)) = StatusInternalServerError
             | (w1, Inr created) \<Rightarrow>
                 fst (snd (RequestLogin e (Some email) w)) = StatusOK \<and>
                 auth_tokens (fst (RequestLogin e (Some email) w))
                   = auth_tokens w @ [stored_AuthToken created]))"
proof -
  from assms(2) have n: "n = int (length (filter
                (\<lambda>t. tok_Email t = email \<and>
                     bson_time (le_now_count e - 600000000000) \<le> tok_CreatedAt t)
                (auth_tokens w)))"
    by (simp add: CountRecentByEmail_Inr ten_Minutes)
  have m: "list_all (\<lambda>t. bson_time (tok_CreatedAt t) = tok_CreatedAt t) (auth_tokens w) \<longrightarrow>
            n = int (length (filter
                  (\<lambda>t. tok_Email t = email \<and>
                       le_now_count e - 600000000000 < tok_CreatedAt t + 1000000)
                  (auth_tokens w)))"
  proof
    assume al: "list_all (\<lambda>t. bson_time (tok_CreatedAt t) = tok_CreatedAt t) (auth_tokens w)"
    have "filter (\<lambda>t. tok_Email t = email \<and>
                     bson_time (le_now_count e - 600000000000) \<le> tok_CreatedAt t) (auth_tokens w)
        = filter (\<lambda>t. tok_Email t = email \<and>
                       le_now_count e - 600000000000 < tok_CreatedAt t + 1000000) (auth_tokens w)"
      using al
      by (intro filter_cong refl) (auto simp: list_all_iff bson_time_le_stored Millisecond_def)
    with n show "n = int (length (filter
                  (\<lambda>t. tok_Email t = email \<and>
                       le_now_count e - 600000000000 < tok_CreatedAt t + 1000000)
                  (auth_tokens w)))"
      by simp
  qed
  have a: "(fst (snd (RequestLogin e (Some email) w)) = StatusTooManyRequests \<longleftrightarrow> 5 \<le> n)"
    using assms
    by (auto simp: RequestLogin_def sendLoginEmail_def logline_def
        split: prod.splits sum.splits option.splits if_splits)
  have b: "5 \<le> n \<longrightarrow>
            RequestLogin e (Some email) w =
              (w, (StatusTooManyRequests,
                   ErrorBody ''too many login requests, please try again later''))"
    using assms by (simp add: RequestLogin_def)
  have c: "n < 5 \<longrightarrow>
            (case AuthTokenRepo_Create (le_create_fault e) (le_now_created e) (le_new_id e)
                    (login_token e email) w of
               (w1, Inl err) \<Rightarrow>
                 fst (snd (RequestLogin e (Some email) w)) = StatusInternalServerError
             | (w1, Inr created) \<Rightarrow>
                 fst (snd (RequestLogin e (Some email) w)) = StatusOK \<and>
                 auth_tokens (fst (RequestLogin e (Some email) w))
                   = auth_tokens w @ [stored_AuthToken created])"
    using assms
    by (auto simp: RequestLogin_def sendLoginEmail_def logline_def AuthTokenRepo_Create_def
        Let_def split: prod.splits sum.splits option.splits if_splits)
  from n m a b c show ?thesis
    by blast
qed

lemma ex_login_count_at_1min:
  "CountRecentByEmail (le_count_fault (ex_login_env 60000000000))
     (le_now_count (ex_login_env 60000000000)) ''a@ex.com'' (10 * Minute) ex_login_world
   = Inr 5"
  by (simp add: CountRecentByEmail_def ex_login_env_def ex_login_world_def ex_login_token_def
      bson_time_def Millisecond_def Minute_def Second_def Let_def)

lemma ex_login_count_after_window:
  "CountRecentByEmail (le_count_fault (ex_login_env 600001000000))
     (le_now_count (ex_login_env 600001000000)) ''a@ex.com'' (10 * Minute) ex_login_world
   = Inr 4"
  by (simp add: CountRecentByEmail_def ex_login_env_def ex_login_world_def ex_login_token_def
      bson_time_def Millisecond_def Minute_def Second_def Let_def)

text \<open>C5, instance: with five tokens issued in the first 40 seconds, a request one
  minute in is rejected and leaves the world as it was; a request one millisecond after
  the ten-minute window has slid past the oldest of the five is not rejected.\<close>

theorem RequestLogin_rate_limit_witness:
  "RequestLogin (ex_login_env 60000000000) (Some ''a@ex.com'') ex_login_world =
     (ex_login_world,
      (StatusTooManyRequests, ErrorBody ''too many login requests, please try again later'')) \<and>
   fst (snd (RequestLogin (ex_login_env 600001000000) (Some ''a@ex.com'') ex_login_world))
     \<noteq> StatusTooManyRequests"
proof -
  have ne: "''a@ex.com'' \<noteq> []"
    by simp
  from RequestLogin_rate_limit [OF ne ex_login_count_at_1min]
  have a: "RequestLogin (ex_login_env 60000000000) (Some ''a@ex.com'') ex_login_world =
     (ex_login_world,
      (StatusTooManyRequests, ErrorBody ''too many login requests, please try again later''))"
    by simp
  from RequestLogin_rate_limit [OF ne ex_login_count_after_window]
  have b: "fst (snd (RequestLogin (ex_login_env 600001000000) (Some ''a@ex.com'')
                       ex_login_world)) \<noteq> StatusTooManyRequests"
    by simp
  from a b show ?thesis
    by simp
qed

text \<open>C5 as stated fails inside the last millisecond: one nanosecond after the window
  has slid past the oldest of the five tokens, only four have
  \<open>created_at \<ge> now - 10 minutes\<close>, yet the request is answered 429.\<close>

theorem RequestLogin_rate_limit_counterexample:
  "list_all (\<lambda>t. bson_time (tok_CreatedAt t) = tok_CreatedAt t) (auth_tokens ex_login_world) \<and>
   int (length (filter
          (\<lambda>t. tok_Email t = ''a@ex.com'' \<and> 600000000001 - 10 * Minute \<le> tok_CreatedAt t)
          (auth_tokens ex_login_world))) = 4 \<and>
   RequestLogin (ex_login_env 600000000001) (Some ''a@ex.com'') ex_login_world =
     (ex_login_world,
      (StatusTooManyRequests, ErrorBody ''too many login requests, please try again later''))"
  by (simp add: RequestLogin_def CountRecentByEmail_def ex_login_env_def ex_login_world_def
      ex_login_token_def bson_time_def Millisecond_def Minute_def Second_def Let_def)

section \<open>Login requests: mail delivery\<close>

text \<open>
  C8. Once the rate limit has let the request through and the token record has been
  created, the answer is 200 whatever \<^verbatim>\<open>sendLoginEmail\<close> returns. If it returns an
  error, the handler logs it and answers 200 with the message "login link generated (email
  delivery may be delayed)" and a note; the created token stays in the store.
\<close>

theorem RequestLogin_delivery_failure:
  assumes "email \<noteq> []"
    and "CountRecentByEmail (le_count_fault e) (le_now_count e) email (10 * Minute) w = Inr n"
    and "n < 5"
    and "AuthTokenRepo_Create (le_create_fault e) (le_now_created e) (le_new_id e)
           (login_token e email) w = (w1, Inr created)"
  shows "fst (snd (RequestLogin e (Some email) w)) = StatusOK \<and>
         (\<forall>w2 err. sendLoginEmail (le_RESEND_API_KEY e) (le_send_fault e) email
                      (login_link e) w1 = (w2, Some err) \<longrightarrow>
            RequestLogin e (Some email) w =
              (logline ''Error sending email: %v'' w1,
               (StatusOK,
                MessageNoteBody ''login link generated (email delivery may be delayed)''
                  ''check server logs if email was not received'')))"
  using assms
  by (auto simp: RequestLogin_def sendLoginEmail_def split: prod.splits option.splits if_splits)

text \<open>C8, instance: the mail service fails for a request that was let through.\<close>

theorem RequestLogin_delivery_failure_witness:
  "sendLoginEmail ''re_key'' True ''a@ex.com''
      ''http://localhost:8080/auth/redirect?token=6f1c''
      (ex_login_world\<lparr>auth_tokens := auth_tokens ex_login_world @
         [\<lparr>tok_ID = 99, tok_Email = ''a@ex.com'', tok_Token = ''6f1c'',
           tok_ExpiresAt = 1500001000000, tok_IsUsed = False,
           tok_CreatedAt = 600001000000\<rparr>]\<rparr>)
     = (ex_login_world\<lparr>auth_tokens := auth_tokens ex_login_world @
         [\<lparr>tok_ID = 99, tok_Email = ''a@ex.com'', tok_Token = ''6f1c'',
           tok_ExpiresAt = 1500001000000, tok_IsUsed = False,
           tok_CreatedAt = 600001000000\<rparr>]\<rparr>, Some ErrSend) \<and>
   RequestLogin ((ex_login_env 600001000000)\<lparr>le_send_fault := True\<rparr>)
      (Some ''a@ex.com'') ex_login_world =
     (logline ''Error sending email: %v''
        (ex_login_world\<lparr>auth_tokens := auth_tokens ex_login_world @
           [\<lparr>tok_ID = 99, tok_Email = ''a@ex.com'', tok_Token = ''6f1c'',
             tok_ExpiresAt = 1500001000000, tok_IsUsed = False,
             tok_CreatedAt = 600001000000\<rparr>]\<rparr>),
      (StatusOK,
       MessageNoteBody ''login link generated (email delivery may be delayed)''
         ''check server logs if email was not received''))"
proof -
  let ?e = "(ex_login_env 600001000000)\<lparr>le_send_fault := True\<rparr>"
  let ?t = "\<lparr>tok_ID = 99, tok_Email = ''a@ex.com'', tok_Token = ''6f1c'',
           tok_ExpiresAt = 1500001000000, tok_IsUsed = False,
           tok_CreatedAt = 600001000000\<rparr>"
  let ?w1 = "ex_login_world\<lparr>auth_tokens := auth_tokens ex_login_world @ [?t]\<rparr>"
  have ne: "''a@ex.com'' \<noteq> []"
    by simp
  have c: "CountRecentByEmail (le_count_fault ?e) (le_now_count ?e) ''a@ex.com'' (10 * Minute)
             ex_login_world = Inr 4"
    using ex_login_count_after_window by (simp add: ex_login_env_def)
  have h: "Hex i \<noteq> ''6f1c''" for i
    by (rule Hex_neq) simp
  have cr: "AuthTokenRepo_Create (le_create_fault ?e) (le_now_created ?e) (le_new_id ?e)
           (login_token ?e ''a@ex.com'') ex_login_world = (?w1, Inr ?t)"
    by (simp add: AuthTokenRepo_Create_def login_token_def ex_login_env_def ex_login_world_def
        ex_login_token_def h stored_AuthToken_def bson_time_def Millisecond_def Minute_def
        Second_def Let_def)
  have s: "sendLoginEmail (le_RESEND_API_KEY ?e) (le_send_fault ?e) ''a@ex.com''
             (login_link ?e) ?w1 = (?w1, Some ErrSend)"
    by (simp add: sendLoginEmail_def ex_login_env_def)
  have l: "login_link ?e = ''http://localhost:8080/auth/redirect?token=6f1c''"
    by (simp add: login_link_def ex_login_env_def)
  from RequestLogin_delivery_failure [OF ne c _ cr] s l show ?thesis
    by (simp add: ex_login_env_def)
qed

section \<open>Requests in flight together: running alone\<close>

text \<open>A request that is given all the steps runs its handler: the thread machines and the
  handlers are the same code.\<close>

lemma VerifyToken_alone:
  "interleave (step_VerifyToken k e tok) stepB [False, False, False, False] (w, V_Start, b)
   = (fst (VerifyToken k e tok w), V_Done (snd (VerifyToken k e tok w)), b)"
  by (auto simp: VerifyToken_def FindOrCreate_def
      split: prod.splits sum.splits option.splits)

lemma SubmitFeedback_alone:
  "interleave (step_SubmitFeedback e uid body) stepB [False, False] (w, F_Start, b)
   = (fst (SubmitFeedback e uid body w), F_Done (snd (SubmitFeedback e uid body w)), b)"
  by (auto simp: SubmitFeedback_def split: prod.splits sum.splits)

lemma FindOrCreate_alone:
  "interleave (step_FindOrCreate e email) stepB [False, False] (w, FO_Start, b)
   = (fst (FindOrCreate e email w), FO_Done (snd (FindOrCreate e email w)), b)"
  by (auto simp: FindOrCreate_def split: prod.splits sum.splits option.splits)

lemma GetAuthVerify_alone:
  "exec k [Step 0, Step 0, Step 0, Step 0] (w, [start (GetAuthVerify e tok)])
   = (fst (VerifyToken k e tok w), [VerifyThread e tok (V_Done (snd (VerifyToken k e tok w)))])"
  by (auto simp: VerifyToken_def FindOrCreate_def
      split: prod.splits sum.splits option.splits)

lemma PostAuthRequest_alone:
  "exec k [Step 0, Step 0, Step 0] (w, [start (PostAuthRequest e body)])
   = (fst (RequestLogin e body w), [LoginThread e body (L_Done (snd (RequestLogin e body w)))])"
  by (auto simp: RequestLogin_stretches split: prod.splits sum.splits option.splits)

lemma PostFeedback_alone:
  "exec k [Step 0, Step 0] (w, [start (PostFeedback e uid body)])
   = (fst (SubmitFeedback e uid body w),
      [FeedbackThread e uid body (F_Done (snd (SubmitFeedback e uid body w)))])"
  by (auto simp: SubmitFeedback_def split: prod.splits sum.splits)

lemma GetUserStatus_alone:
  "exec k [Step 0] (w, [start (GetUserStatus fault uid)])
   = (fst (GetStatus fault uid w), [StatusThread fault uid (Some (snd (GetStatus fault uid w)))])"
  by (simp add: case_prod_beta)

lemma PatchUserOnboarding_alone:
  "exec k [Step 0] (w, [start (PatchUserOnboarding fault now uid)])
   = (fst (CompleteOnboarding fault now uid w),
      [OnboardingThread fault now uid (Some (snd (CompleteOnboarding fault now uid w)))])"
  by (simp add: case_prod_beta)

section \<open>Token redemption: two requests at once\<close>

text \<open>
  C2 does not hold of the code. Two \<^verbatim>\<open>VerifyToken\<close> requests for the unused, unexpired
  example token, scheduled so that both look the token up before either marks it, are
  both answered 200 with a credential. \<^verbatim>\<open>MarkUsed\<close> filters on the token value alone:
  applied to a record that is already used it reports no error and changes nothing.
\<close>

theorem VerifyToken_race_both_succeed:
  "snd (interleave (step_VerifyToken ''k'' (ex_verify_env 500000000) ''T1'')
          (step_VerifyToken ''k'' (ex_verify_env 500000000) ''T1'')
          [False, True, False, True, False, True]
          (ex_world\<lparr>users := [ex_user]\<rparr>, V_Start, V_Start))
   = (V_Done (StatusOK,
        VerifyBody (HS256 \<lparr>claim_user_id = Hex 3, claim_email = ''new@ex.com'',
                            claim_exp = 2592000, claim_iat = 0\<rparr> ''k'') ex_user),
      V_Done (StatusOK,
        VerifyBody (HS256 \<lparr>claim_user_id = Hex 3, claim_email = ''new@ex.com'',
                            claim_exp = 2592000, claim_iat = 0\<rparr> ''k'') ex_user)) \<and>
   MarkUsed False ''T1'' (ex_world\<lparr>auth_tokens := [ex_token\<lparr>tok_IsUsed := True\<rparr>]\<rparr>)
   = (ex_world\<lparr>auth_tokens := [ex_token\<lparr>tok_IsUsed := True\<rparr>]\<rparr>, None)"
  by (simp add: ex_world_def ex_token_def ex_user_def ex_verify_env_def ex_user_env_def
      verify_lookup_def verify_mark_def verify_issue_def FindByToken_def MarkUsed_def
      FindByEmail_def IsExpired_def Unix_def Second_def Minute_def Hour_def Let_def)

section \<open>Feedback: two submissions at once\<close>

text \<open>
  C3 does not hold of the code. Two submissions with key \<open>k1\<close> both pass the lookup
  before either inserts. The first insert is answered 201; the second is rejected by the
  unique index, and the handler logs the error and answers 500 "failed to submit feedback"
  instead of the "already submitted" answer with the stored record, which the same request
  gets when it runs after the first.
\<close>

theorem SubmitFeedback_race_loser:
  "interleave (step_SubmitFeedback (ex_feedback_env 11) ex_uid (Some ex_req))
     (step_SubmitFeedback (ex_feedback_env 12) ex_uid (Some ex_req))
     [False, True, False, True] (ex_world, F_Start, F_Start)
   = (ex_world\<lparr>feedbacks := [ex_feedback_stored],
                logs := [''Error creating feedback: %v''],
                slack := [formatSlackMessage ex_uid ''great app'' 5]\<rparr>,
      F_Done (StatusCreated, FeedbackBody ''feedback submitted successfully'' ex_feedback),
      F_Done (StatusInternalServerError, ErrorBody ''failed to submit feedback'')) \<and>
   snd (SubmitFeedback (ex_feedback_env 12) ex_uid (Some ex_req)
          (fst (SubmitFeedback (ex_feedback_env 11) ex_uid (Some ex_req) ex_world)))
   = (StatusOK, FeedbackBody ''feedback already submitted'' ex_feedback_stored)"
  by (simp add: fb_defs submit_defs ex_uid_parses [unfolded ex_uid_def] stored_Feedback_def
      bson_time_def Millisecond_def Let_def)

text \<open>
  C7 does not hold of the code. Of three submissions with key \<open>k1\<close>, two run together
  and the third after them. One record is stored and one notification started, and the
  third is answered 200 with the stored record; but the second, a repeated call with the
  same key, is answered 500 and not with the record.
\<close>

theorem SubmitFeedback_repeated_concurrent:
  "exec ''k'' [Step 0, Step 1, Step 0, Step 1, Step 2]
     (ex_world,
      map start [PostFeedback (ex_feedback_env 11) ex_uid (Some ex_req),
                 PostFeedback (ex_feedback_env 12) ex_uid (Some ex_req),
                 PostFeedback (ex_feedback_env 13) ex_uid (Some ex_req)])
   = (ex_world\<lparr>feedbacks := [ex_feedback_stored],
                logs := [''Error creating feedback: %v''],
                slack := [formatSlackMessage ex_uid ''great app'' 5]\<rparr>,
      [FeedbackThread (ex_feedback_env 11) ex_uid (Some ex_req)
         (F_Done (StatusCreated, FeedbackBody ''feedback submitted successfully'' ex_feedback)),
       FeedbackThread (ex_feedback_env 12) ex_uid (Some ex_req)
         (F_Done (StatusInternalServerError, ErrorBody ''failed to submit feedback'')),
       FeedbackThread (ex_feedback_env 13) ex_uid (Some ex_req)
         (F_Done (StatusOK, FeedbackBody ''feedback already submitted'' ex_feedback_stored))])"
  by (simp add: fb_defs submit_defs ex_uid_parses [unfolded ex_uid_def] stored_Feedback_def
      bson_time_def Millisecond_def Let_def)

section \<open>Users: two resolutions at once\<close>

text \<open>
  C6 does not hold of the code. Two resolutions of a never-seen address both find nothing
  before either inserts. The first insert returns the new user; the second is rejected by
  the unique index and \<^verbatim>\<open>FindOrCreate\<close> returns the duplicate-key error, although run
  after the first it returns the winner's record. Inside \<^verbatim>\<open>VerifyToken\<close>, for two
  tokens of that address, the loser is answered 500 and its token is left used.
\<close>

theorem FindOrCreate_race_loser:
  "interleave (step_FindOrCreate ex_user_env ''new@ex.com'')
     (step_FindOrCreate (ex_user_env\<lparr>ue_new_id := 8\<rparr>) ''new@ex.com'')
     [False, True, False, True] (ex_world, FO_Start, FO_Start)
   = (ex_world\<lparr>users := [\<lparr>usr_ID = 7, usr_Email = ''new@ex.com'',
                               usr_OnboardingCompleted = False,
                               usr_CreatedAt = 900000000, usr_UpdatedAt = 900000000\<rparr>]\<rparr>,
      FO_Done (Inr \<lparr>usr_ID = 7, usr_Email = ''new@ex.com'', usr_OnboardingCompleted = False,
                    usr_CreatedAt = 900000123, usr_UpdatedAt = 900000456\<rparr>),
      FO_Done (Inl ErrDuplicateKey)) \<and>
   snd (FindOrCreate (ex_user_env\<lparr>ue_new_id := 8\<rparr>) ''new@ex.com''
          (fst (FindOrCreate ex_user_env ''new@ex.com'' ex_world)))
   = Inr \<lparr>usr_ID = 7, usr_Email = ''new@ex.com'', usr_OnboardingCompleted = False,
          usr_CreatedAt = 900000000, usr_UpdatedAt = 900000000\<rparr> \<and>
   snd (interleave (step_VerifyToken ''k'' (ex_verify_env 500000000) ''T1'')
          (step_VerifyToken ''k''
             ((ex_verify_env 500000000)\<lparr>ve_user := ex_user_env\<lparr>ue_new_id := 8\<rparr>\<rparr>) ''T2'')
          [False, True, False, True, False, True, False, True]
          (ex_world\<lparr>auth_tokens := [ex_token, ex_token2]\<rparr>, V_Start, V_Start))
   = (V_Done (StatusOK,
        VerifyBody (HS256 \<lparr>claim_user_id = Hex 7, claim_email = ''new@ex.com'',
                            claim_exp = 2592000, claim_iat = 0\<rparr> ''k'')
          \<lparr>usr_ID = 7, usr_Email = ''new@ex.com'', usr_OnboardingCompleted = False,
            usr_CreatedAt = 900000123, usr_UpdatedAt = 900000456\<rparr>),
      V_Done (StatusInternalServerError, ErrorBody ''internal server error'')) \<and>
   find (\<lambda>t. tok_Token t = ''T2'')
     (auth_tokens (fst (interleave (step_VerifyToken ''k'' (ex_verify_env 500000000) ''T1'')
          (step_VerifyToken ''k''
             ((ex_verify_env 500000000)\<lparr>ve_user := ex_user_env\<lparr>ue_new_id := 8\<rparr>\<rparr>) ''T2'')
          [False, True, False, True, False, True, False, True]
          (ex_world\<lparr>auth_tokens := [ex_token, ex_token2]\<rparr>, V_Start, V_Start))))
   = Some (ex_token2\<lparr>tok_IsUsed := True\<rparr>)"
  by (simp add: ex_defs ex_token2_def verify_defs stored_User_def bson_time_def Millisecond_def
      Unix_def Second_def Minute_def Hour_def Let_def)

end
